theory Spec2Isabelle
  imports Main
begin

section \<open>Theme preference manager (assets/js/theme-toggle.js)\<close>

text \<open>
  The browser is a record: local storage (with the two ways it can fail), the
  \<open>prefers-color-scheme\<close> media query, the root element's \<open>data-theme\<close> attribute, the
  elements matching \<open>[data-theme-toggle]\<close>, the \<open>themechange\<close> events dispatched so far and
  the console. \<open>setItem_calls\<close> records every call of \<open>localStorage.setItem\<close>, whether it
  threw or not.  A JavaScript exception is the left summand of a result.
\<close>

datatype js_error = SecurityError | QuotaExceededError | TypeError

datatype icon = Moon | Sun

record button =
  aria_pressed :: "string option"
  aria_label :: "string option"
  class_dark :: bool
  class_light :: bool
  text_el :: "string option"
  icon_el :: "icon option"

record world =
  storage :: "string \<rightharpoonup> string"
  getItem_throws :: bool
  setItem_throws :: bool
  setItem_calls :: "(string \<times> string) list"
  has_matchMedia :: bool
  prefers_dark :: bool
  data_theme :: "string option"
  buttons :: "button list"
  dispatched :: "string list"
  console :: "string list"

type_synonym 'a result = "(js_error + 'a) \<times> world"

definition storageKey :: string where
  "storageKey = ''csharp-portfolio-theme''"

definition LIGHT :: string where "LIGHT = ''light''"
definition DARK :: string where "DARK = ''dark''"
definition AUTO :: string where "AUTO = ''auto''"

definition themes_values :: "string list" where
  "themes_values = [LIGHT, DARK, AUTO]"

text \<open>JavaScript truthiness of a value that is \<open>null\<close> or a string.\<close>

definition truthy :: "string option \<Rightarrow> bool" where
  "truthy v = (case v of None \<Rightarrow> False | Some s \<Rightarrow> s \<noteq> [])"

definition bool_toString :: "bool \<Rightarrow> string" where
  "bool_toString b = (if b then ''true'' else ''false'')"

definition localStorage_getItem :: "world \<Rightarrow> string \<Rightarrow> js_error + string option" where
  "localStorage_getItem w k = (if getItem_throws w then Inl SecurityError else Inr (storage w k))"

definition localStorage_setItem :: "string \<Rightarrow> string \<Rightarrow> world \<Rightarrow> unit result" where
  "localStorage_setItem k v w =
     (let w1 = w\<lparr>setItem_calls := setItem_calls w @ [(k, v)]\<rparr>
      in if setItem_throws w then (Inl QuotaExceededError, w1)
         else (Inr (), w1\<lparr>storage := (storage w)(k \<mapsto> v)\<rparr>))"

definition console_warn :: "string \<Rightarrow> world \<Rightarrow> world" where
  "console_warn msg w = w\<lparr>console := console w @ [msg]\<rparr>"

text \<open>Sequencing of two calls: an exception of the first skips the second.\<close>

definition thenDo :: "'a result \<Rightarrow> ('a \<Rightarrow> world \<Rightarrow> 'b result) \<Rightarrow> 'b result" where
  "thenDo m f = (case m of (Inl e, w) \<Rightarrow> (Inl e, w) | (Inr v, w) \<Rightarrow> f v w)"

text \<open>\<open>getStoredTheme\<close> and \<open>storeTheme\<close>: the \<open>try\<close> block, then the \<open>catch\<close> block.\<close>

definition getStoredTheme :: "world \<Rightarrow> string option result" where
  "getStoredTheme w =
     (case localStorage_getItem w storageKey of
        Inr v \<Rightarrow> (Inr v, w)
      | Inl e \<Rightarrow> (Inr None, console_warn ''Failed to read theme from localStorage:'' w))"

definition storeTheme :: "string \<Rightarrow> world \<Rightarrow> unit result" where
  "storeTheme theme w =
     (case localStorage_setItem storageKey theme w of
        (Inr u, w1) \<Rightarrow> (Inr (), w1)
      | (Inl e, w1) \<Rightarrow> (Inr (), console_warn ''Failed to store theme in localStorage:'' w1))"

definition getSystemTheme :: "world \<Rightarrow> string" where
  "getSystemTheme w = (if has_matchMedia w \<and> prefers_dark w then DARK else LIGHT)"

definition updateButtonAria :: "string \<Rightarrow> button \<Rightarrow> button" where
  "updateButtonAria theme b =
     (let isDark = (theme = DARK)
      in b\<lparr>aria_pressed := Some (bool_toString isDark),
            aria_label := Some (if isDark then ''Switch to light theme''
                                else ''Switch to dark theme'')\<rparr>)"

definition updateButtonVisual :: "string \<Rightarrow> button \<Rightarrow> button" where
  "updateButtonVisual theme b =
     (let isDark = (theme = DARK);
          b1 = b\<lparr>class_dark := isDark, class_light := \<not> isDark\<rparr>;
          b2 = (case text_el b1 of None \<Rightarrow> b1
                | Some t \<Rightarrow> b1\<lparr>text_el := Some (if isDark then ''false'' else ''true'')\<rparr>)
      in (case icon_el b2 of None \<Rightarrow> b2
          | Some i \<Rightarrow> b2\<lparr>icon_el := Some (if isDark then Moon else Sun)\<rparr>))"

definition updateToggleButtons :: "string \<Rightarrow> world \<Rightarrow> world" where
  "updateToggleButtons theme w =
     w\<lparr>buttons := map (\<lambda>b. updateButtonVisual theme (updateButtonAria theme b)) (buttons w)\<rparr>"

definition dispatchThemeChangeEvent :: "string \<Rightarrow> world \<Rightarrow> world" where
  "dispatchThemeChangeEvent theme w = w\<lparr>dispatched := dispatched w @ [theme]\<rparr>"

definition applyTheme :: "string \<Rightarrow> world \<Rightarrow> world" where
  "applyTheme theme w =
     (let w1 = w\<lparr>data_theme := None\<rparr>;
          w2 = (if theme = AUTO then w1 else w1\<lparr>data_theme := Some theme\<rparr>)
      in dispatchThemeChangeEvent theme (updateToggleButtons theme w2))"

definition getCurrentTheme :: "world \<Rightarrow> string" where
  "getCurrentTheme w =
     (case data_theme w of
        Some t \<Rightarrow> (if t \<noteq> [] then t else getSystemTheme w)
      | None \<Rightarrow> getSystemTheme w)"

definition setInitialTheme :: "world \<Rightarrow> unit result" where
  "setInitialTheme w =
     thenDo (getStoredTheme w) (\<lambda>storedTheme w1.
       let systemTheme = getSystemTheme w1
       in (case storedTheme of
             Some s \<Rightarrow> (if s \<noteq> [] then (Inr (), applyTheme s w1)
                        else storeTheme systemTheme (applyTheme systemTheme w1))
           | None \<Rightarrow> storeTheme systemTheme (applyTheme systemTheme w1)))"

definition toggle :: "world \<Rightarrow> unit result" where
  "toggle w =
     (let currentTheme = getCurrentTheme w;
          newTheme = (if currentTheme = LIGHT then DARK else LIGHT)
      in storeTheme newTheme (applyTheme newTheme w))"

definition setTheme :: "string \<Rightarrow> world \<Rightarrow> unit result" where
  "setTheme theme w =
     (if theme \<in> set themes_values then storeTheme theme (applyTheme theme w)
      else (Inr (), console_warn (''Invalid theme: '' @ theme) w))"

definition handleSystemThemeChange :: "bool \<Rightarrow> world \<Rightarrow> unit result" where
  "handleSystemThemeChange e_matches w =
     thenDo (getStoredTheme w) (\<lambda>storedTheme w1.
       if \<not> truthy storedTheme \<or> storedTheme = Some AUTO
       then (Inr (), applyTheme (if e_matches then DARK else LIGHT) w1)
       else (Inr (), w1))"

definition initToggleButtons :: "world \<Rightarrow> world" where
  "initToggleButtons w = w\<lparr>buttons := map (updateButtonAria (getCurrentTheme w)) (buttons w)\<rparr>"

text \<open>
  \<open>init\<close>: \<open>watchSystemTheme\<close> and \<open>initKeyboardShortcuts\<close> only register listeners,
  which are the events \<open>SystemThemeChange\<close> and \<open>KeyDown\<close> below.
\<close>

definition init :: "world \<Rightarrow> unit result" where
  "init w = thenDo (setInitialTheme w) (\<lambda>u w1. (Inr (), initToggleButtons w1))"

text \<open>The listener of \<open>initKeyboardShortcuts\<close>: Ctrl+Shift+T toggles.\<close>

definition keydown_shortcut :: "bool \<Rightarrow> bool \<Rightarrow> string \<Rightarrow> world \<Rightarrow> unit result" where
  "keydown_shortcut ctrlKey shiftKey key w =
     (if ctrlKey \<and> shiftKey \<and> key = ''T'' then toggle w else (Inr (), w))"

text \<open>The click listener that \<open>initToggleButtons\<close> puts on every toggle button.\<close>

definition button_click :: "world \<Rightarrow> unit result" where
  "button_click w = toggle w"

text \<open>
  The operations of the theme manager, as the page can trigger them.  The media query's
  change event carries the new value of \<open>matches\<close>; \<open>watchSystemTheme\<close> registers its
  listener only when \<open>window.matchMedia\<close> exists.
\<close>

datatype theme_op =
    Init
  | ButtonClick
  | KeyDown bool bool string
  | SetTheme string
  | SystemThemeChange bool

definition theme_step :: "theme_op \<Rightarrow> world \<Rightarrow> unit result" where
  "theme_step ev w =
     (case ev of
        Init \<Rightarrow> init w
      | ButtonClick \<Rightarrow> button_click w
      | KeyDown c s k \<Rightarrow> keydown_shortcut c s k w
      | SetTheme t \<Rightarrow> setTheme t w
      | SystemThemeChange m \<Rightarrow>
          (if has_matchMedia w then handleSystemThemeChange m (w\<lparr>prefers_dark := m\<rparr>)
           else (Inr (), w)))"

text \<open>A run of operations; an uncaught exception would end only the handler it is in.\<close>

fun theme_run :: "theme_op list \<Rightarrow> world \<Rightarrow> world" where
  "theme_run [] w = w"
| "theme_run (ev # evs) w = theme_run evs (snd (theme_step ev w))"


text \<open>A call of \<open>setItem\<close> that the data model allows: the one key, one of the three values.\<close>

definition valid_write :: "string \<times> string \<Rightarrow> bool" where
  "valid_write c = (fst c = storageKey \<and> snd c \<in> set themes_values)"

text \<open>What an operation may do to the storage, from the world before to the world after.\<close>

definition step_inv :: "world \<Rightarrow> world \<Rightarrow> bool" where
  "step_inv w w' \<longleftrightarrow>
     (\<exists>new. setItem_calls w' = setItem_calls w @ new \<and> list_all valid_write new)
   \<and> (\<forall>k. k \<noteq> storageKey \<longrightarrow> storage w' k = storage w k)
   \<and> (storage w' storageKey = storage w storageKey
        \<or> storage w' storageKey \<in> Some ` set themes_values)"

text \<open>Example pages: a first visit on a dark system, a returning visitor who chose the
  light theme, a browser whose storage rejects writes, and one whose storage cannot be read.\<close>

definition plain_button :: button where
  "plain_button = \<lparr>aria_pressed = None, aria_label = None, class_dark = False,
      class_light = False, text_el = None, icon_el = None\<rparr>"

definition world_fresh :: world where
  "world_fresh = \<lparr>storage = Map.empty, getItem_throws = False, setItem_throws = False,
      setItem_calls = [], has_matchMedia = True, prefers_dark = True,
      data_theme = None, buttons = [plain_button], dispatched = [], console = []\<rparr>"

definition world_light :: world where
  "world_light = \<lparr>storage = [storageKey \<mapsto> ''light''], getItem_throws = False,
      setItem_throws = False, setItem_calls = [], has_matchMedia = True, prefers_dark = False,
      data_theme = Some ''light'', buttons = [plain_button, plain_button],
      dispatched = [], console = []\<rparr>"

definition world_readonly :: world where
  "world_readonly = \<lparr>storage = Map.empty, getItem_throws = False, setItem_throws = True,
      setItem_calls = [], has_matchMedia = True, prefers_dark = False,
      data_theme = Some ''light'', buttons = [plain_button], dispatched = [], console = []\<rparr>"

definition world_blocked :: world where
  "world_blocked = \<lparr>storage = [storageKey \<mapsto> ''light''], getItem_throws = True,
      setItem_throws = True, setItem_calls = [], has_matchMedia = True, prefers_dark = True,
      data_theme = None, buttons = [plain_button], dispatched = [], console = []\<rparr>"

section \<open>Contact form: ContactFormValidator and the form listeners of accessibility.js\<close>

text \<open>
  The form is the list of its \<open>input\<close> and \<open>textarea\<close> elements in document order, the
  elements that hold error messages (by id), the \<open>#formStatus\<close> element and the submit
  button, each of which may be missing.  Numeric attributes (\<open>minlength\<close>,
  \<open>maxlength\<close>) are absent or a natural number.  A character is a UTF-16 code unit
  below 256, so the strings are those of the Latin-1 range, and their length is the one
  JavaScript counts.  \<open>toUpperCase\<close> is \<open>String.prototype.toUpperCase\<close> of the browser:
  the Unicode case table it applies is not part of the repository, so it is a component of
  the page.  \<open>fetch_log\<close>, \<open>navigations\<close> and \<open>status_log\<close> record the requests sent,
  the assignments to \<open>window.location.href\<close> and the calls of ContactFormValidator's
  \<open>showFormStatus\<close>.
\<close>

record field =
  f_id :: string
  f_name :: string
  f_type :: string
  f_value :: string
  f_default :: string
  f_required :: bool
  f_minlength :: "nat option"
  f_maxlength :: "nat option"
  f_describedby :: "string option"
  f_label :: "string option"
  f_classes :: "string list"
  f_aria_invalid :: "string option"

record err_el =
  e_text :: string
  e_classes :: "string list"

record status_el =
  s_text :: string
  s_className :: string
  s_aria_live :: "string option"

record submit_btn =
  b_disabled :: bool
  b_innerHTML :: string

record request =
  rq_endpoint :: string
  rq_method :: string
  rq_body :: "(string \<times> string) list"

record page =
  inputs :: "field list"
  elements :: "string \<rightharpoonup> err_el"
  formStatus :: "status_el option"
  submitBtn :: "submit_btn option"
  isSubmitting :: bool
  loc_hostname :: string
  loc_href :: string
  fetch_log :: "request list"
  navigations :: "string list"
  status_log :: "(string \<times> string) list"
  page_console :: "string list"
  toUpperCase :: "string \<Rightarrow> string"

datatype fetch_outcome = NetworkError | Response bool

record service =
  sv_name :: string
  sv_endpoint :: string
  sv_method :: string

record rules =
  r_id :: string
  r_required :: bool
  r_type :: "string option"
  r_minLength :: "nat option"
  r_maxLength :: "nat option"

datatype submit_outcome = AlreadySubmitting | ValidationFailed | SubmitFormCalled "js_error + unit"

subsection \<open>Strings and class lists\<close>

text \<open>The white space of \<open>String.prototype.trim\<close> and of \<open>\s\<close> below code unit 256:
  tab, line feed, vertical tab, form feed, carriage return, space and the no-break space.\<close>

definition is_space :: "char \<Rightarrow> bool" where
  "is_space c = (c \<in> set [CHR '' '', CHR 0x09, CHR 0x0A, CHR 0x0B, CHR 0x0C, CHR 0x0D, CHR 0xA0])"

definition trim :: "string \<Rightarrow> string" where
  "trim s = rev (dropWhile is_space (rev (dropWhile is_space s)))"

text \<open>\<open>str.charAt(0).toUpperCase() + str.slice(1)\<close>, with the browser's \<open>toUpperCase\<close>.\<close>

definition capitalize :: "(string \<Rightarrow> string) \<Rightarrow> string \<Rightarrow> string" where
  "capitalize upper str = upper (take 1 str) @ drop 1 str"

text \<open>\<open>toUpperCase\<close> on ASCII strings: the letters a to z become A to Z.  The example
  pages take it for the browser's function; the strings they capitalize (the names of
  their fields) are ASCII.\<close>

definition ascii_toUpperCase :: "string \<Rightarrow> string" where
  "ascii_toUpperCase str =
     map (\<lambda>c. case map_of (zip ''abcdefghijklmnopqrstuvwxyz'' ''ABCDEFGHIJKLMNOPQRSTUVWXYZ'') c of
                 Some u \<Rightarrow> u | None \<Rightarrow> c) str"

fun str_includes :: "string \<Rightarrow> string \<Rightarrow> bool" where
  "str_includes [] sub = (sub = [])"
| "str_includes (c # cs) sub = (take (length sub) (c # cs) = sub \<or> str_includes cs sub)"

definition digit_char :: "nat \<Rightarrow> char" where
  "digit_char n = ''0123456789'' ! (n mod 10)"

function nat_toString :: "nat \<Rightarrow> string" where
  "nat_toString n = (if n < 10 then [digit_char n] else nat_toString (n div 10) @ [digit_char n])"
  by pat_completeness auto
termination
  by (relation "measure id") auto

definition hex_digit :: "nat \<Rightarrow> char" where
  "hex_digit n = ''0123456789ABCDEF'' ! (n mod 16)"

definition unreserved :: "char \<Rightarrow> bool" where
  "unreserved c = (c \<in> set ''ABCDEFGHIJKLMNOPQRSTUVWXYZabcdefghijklmnopqrstuvwxyz0123456789-_.!~*()''
                  \<or> c = CHR 0x27)"

text \<open>A code unit that is not unreserved is written as the bytes of its UTF-8 encoding,
  each as a percent sign and two hexadecimal digits; below 128 that is one byte, from 128 to
  255 two.\<close>

definition percent_byte :: "nat \<Rightarrow> string" where
  "percent_byte b = [CHR ''%'', hex_digit (b div 16), hex_digit b]"

definition encodeURIComponent :: "string \<Rightarrow> string" where
  "encodeURIComponent s =
     concat (map (\<lambda>c. if unreserved c then [c]
                       else if (of_char c :: nat) < 128 then percent_byte (of_char c)
                       else percent_byte (192 + of_char c div 64) @ percent_byte (128 + of_char c mod 64)) s)"

text \<open>The regular expression \<open>^[^\s@]+@[^\s@]+\.[^\s@]+$\<close>: no white space, one \<open>@\<close>
  after a non-empty local part, and a dot inside the rest, neither first nor last.\<close>

definition isValidEmail :: "string \<Rightarrow> bool" where
  "isValidEmail email =
     (let local = takeWhile (\<lambda>c. c \<noteq> CHR ''@'') email;
          rest = dropWhile (\<lambda>c. c \<noteq> CHR ''@'') email
      in case rest of
           [] \<Rightarrow> False
         | at # domain \<Rightarrow>
             local \<noteq> [] \<and> \<not> list_ex is_space local
           \<and> \<not> list_ex (\<lambda>c. is_space c \<or> c = CHR ''@'') domain
           \<and> CHR ''.'' \<in> set (butlast (tl domain)))"

definition class_add :: "string \<Rightarrow> string list \<Rightarrow> string list" where
  "class_add c cs = (if c \<in> set cs then cs else cs @ [c])"

definition class_remove :: "string \<Rightarrow> string list \<Rightarrow> string list" where
  "class_remove c cs = removeAll c cs"


text \<open>\<open>form.querySelector('#' + id)\<close>: the position of the first field with that id.\<close>

fun find_field :: "string \<Rightarrow> field list \<Rightarrow> nat option" where
  "find_field x [] = None"
| "find_field x (f # fs) = (if f_id f = x then Some 0 else map_option Suc (find_field x fs))"

definition upd_field :: "nat \<Rightarrow> (field \<Rightarrow> field) \<Rightarrow> page \<Rightarrow> page" where
  "upd_field i g p = p\<lparr>inputs := (inputs p)[i := g (inputs p ! i)]\<rparr>"

definition upd_element :: "string \<Rightarrow> (err_el \<Rightarrow> err_el) \<Rightarrow> page \<Rightarrow> page" where
  "upd_element k g p =
     (case elements p k of None \<Rightarrow> p | Some e \<Rightarrow> p\<lparr>elements := (elements p)(k \<mapsto> g e)\<rparr>)"

text \<open>A property of the object \<open>data\<close>: assignment keeps the position of an existing key.\<close>

definition obj_set :: "string \<Rightarrow> string \<Rightarrow> (string \<times> string) list \<Rightarrow> (string \<times> string) list" where
  "obj_set k v d =
     (if k \<in> fst ` set d then map (\<lambda>kv. if fst kv = k then (k, v) else kv) d else d @ [(k, v)])"

subsection \<open>ContactFormValidator\<close>

definition showFieldError :: "nat \<Rightarrow> string \<Rightarrow> string \<Rightarrow> string \<Rightarrow> page \<Rightarrow> page" where
  "showFieldError i key message errorClass p =
     (let p1 = upd_field i (\<lambda>f. f\<lparr>f_classes := class_remove ''valid'' (class_add ''error'' (f_classes f))\<rparr>) p
      in upd_element key
           (\<lambda>e. e\<lparr>e_text := message,
                  e_classes := (if errorClass \<noteq> [] then class_add errorClass (class_add ''show'' (e_classes e))
                                else class_add ''show'' (e_classes e))\<rparr>) p1)"

definition clearFieldError :: "nat \<Rightarrow> page \<Rightarrow> page" where
  "clearFieldError i p =
     (let p1 = upd_element (f_id (inputs p ! i) @ ''-error'')
                 (\<lambda>e. e\<lparr>e_text := [],
                        e_classes := class_remove ''length-error'' (class_remove ''email-error''
                           (class_remove ''required-error'' (class_remove ''show'' (e_classes e))))\<rparr>) p
      in upd_field i (\<lambda>f. f\<lparr>f_classes := class_remove ''error'' (f_classes f)\<rparr>) p1)"

definition parseInt_or_null :: "nat option \<Rightarrow> nat option" where
  "parseInt_or_null a = (case a of None \<Rightarrow> None | Some n \<Rightarrow> if n = 0 then None else Some n)"

definition or_default :: "nat option \<Rightarrow> nat \<Rightarrow> nat option" where
  "or_default a d = (case a of None \<Rightarrow> Some d | Some n \<Rightarrow> Some n)"

definition getFieldRules :: "field \<Rightarrow> rules" where
  "getFieldRules input =
     (let r = \<lparr>r_id = f_id input, r_required = f_required input, r_type = Some (f_type input),
               r_minLength = parseInt_or_null (f_minlength input),
               r_maxLength = parseInt_or_null (f_maxlength input)\<rparr>
      in if f_id input = ''name''
           then r\<lparr>r_minLength := or_default (r_minLength r) 2, r_maxLength := or_default (r_maxLength r) 100\<rparr>
         else if f_id input = ''subject''
           then r\<lparr>r_minLength := or_default (r_minLength r) 5, r_maxLength := or_default (r_maxLength r) 200\<rparr>
         else if f_id input = ''message''
           then r\<lparr>r_minLength := or_default (r_minLength r) 10, r_maxLength := or_default (r_maxLength r) 2000\<rparr>
         else r)"

definition too_short :: "nat option \<Rightarrow> string \<Rightarrow> bool" where
  "too_short m v = (case m of None \<Rightarrow> False | Some n \<Rightarrow> n \<noteq> 0 \<and> length v < n)"

definition too_long :: "nat option \<Rightarrow> string \<Rightarrow> bool" where
  "too_long m v = (case m of None \<Rightarrow> False | Some n \<Rightarrow> n \<noteq> 0 \<and> n < length v)"

definition limit_text :: "nat option \<Rightarrow> string" where
  "limit_text m = (case m of None \<Rightarrow> ''null'' | Some n \<Rightarrow> nat_toString n)"

definition validateField :: "nat option \<Rightarrow> rules option \<Rightarrow> page \<Rightarrow> bool \<times> page" where
  "validateField input rules0 p =
     (case input of
        None \<Rightarrow> (True, p)
      | Some i \<Rightarrow>
          (let f = inputs p ! i;
               v = trim (f_value f);
               fieldName = (if f_name f \<noteq> [] then f_name f else f_id f);
               key = f_id f @ ''-error''
           in case elements p key of
                None \<Rightarrow> (True, p)
              | Some el \<Rightarrow>
                  (let p1 = clearFieldError i p;
                       r = (case rules0 of None \<Rightarrow> getFieldRules f | Some r0 \<Rightarrow> r0)
                   in if r_required r \<and> v = []
                        then (False, showFieldError i key (capitalize (toUpperCase p) fieldName @ '' is required'')
                                       ''required-error'' p1)
                      else if v = [] \<and> \<not> r_required r then (True, p1)
                      else if r_type r = Some ''email'' \<and> \<not> isValidEmail v
                        then (False, showFieldError i key ''Invalid email format'' ''email-error'' p1)
                      else if too_short (r_minLength r) v
                        then (False, showFieldError i key
                                (capitalize (toUpperCase p) fieldName @ '' must be at least '' @ limit_text (r_minLength r)
                                   @ '' characters'') ''length-error'' p1)
                      else if too_long (r_maxLength r) v
                        then (False, showFieldError i key
                                (capitalize (toUpperCase p) fieldName @ '' must be no more than '' @ limit_text (r_maxLength r)
                                   @ '' characters'') ''length-error'' p1)
                      else (True, upd_field i (\<lambda>f. f\<lparr>f_classes := class_add ''valid'' (f_classes f)\<rparr>) p1))))"

definition form_rules :: "rules list" where
  "form_rules =
     [\<lparr>r_id = ''name'', r_required = True, r_type = None, r_minLength = Some 2, r_maxLength = None\<rparr>,
      \<lparr>r_id = ''email'', r_required = True, r_type = Some ''email'', r_minLength = None, r_maxLength = None\<rparr>,
      \<lparr>r_id = ''subject'', r_required = True, r_type = None, r_minLength = Some 5, r_maxLength = None\<rparr>,
      \<lparr>r_id = ''message'', r_required = True, r_type = None, r_minLength = Some 10, r_maxLength = None\<rparr>]"

definition validate_rule :: "rules \<Rightarrow> bool \<times> page \<Rightarrow> bool \<times> page" where
  "validate_rule r acc =
     (let (ok, p') = validateField (find_field (r_id r) (inputs (snd acc))) (Some r) (snd acc)
      in (fst acc \<and> ok, p'))"

definition validateForm :: "page \<Rightarrow> bool \<times> page" where
  "validateForm p = fold validate_rule form_rules (True, p)"

definition showFormStatus :: "string \<Rightarrow> string \<Rightarrow> page \<Rightarrow> page" where
  "showFormStatus message type p =
     (let p1 = p\<lparr>status_log := status_log p @ [(message, type)]\<rparr>
      in case formStatus p1 of
           None \<Rightarrow> p1
         | Some st \<Rightarrow> p1\<lparr>formStatus := Some (st\<lparr>s_text := message,
                                                  s_className := ''form-status show '' @ type\<rparr>)\<rparr>)"

definition hideFormStatus :: "page \<Rightarrow> page" where
  "hideFormStatus p =
     (case formStatus p of
        None \<Rightarrow> p
      | Some st \<Rightarrow> p\<lparr>formStatus := Some (st\<lparr>s_text := [], s_className := ''form-status''\<rparr>)\<rparr>)"

definition handleReset :: "page \<Rightarrow> page" where
  "handleReset p =
     (let p1 = p\<lparr>elements := (\<lambda>k. map_option
                  (\<lambda>e. if ''error-message'' \<in> set (e_classes e)
                        then e\<lparr>e_text := [], e_classes := class_remove ''show'' (e_classes e)\<rparr>
                        else e) (elements p k))\<rparr>;
          p2 = hideFormStatus p1
      in p2\<lparr>inputs := map (\<lambda>f. f\<lparr>f_classes := class_remove ''valid'' (class_remove ''error'' (f_classes f))\<rparr>)
                           (inputs p2)\<rparr>)"

text \<open>\<open>form.reset()\<close>: the browser fires the \<open>reset\<close> event, whose listener is
  \<open>handleReset\<close>, and then sets every control back to its default value.\<close>

definition form_reset :: "page \<Rightarrow> page" where
  "form_reset p =
     (let p1 = handleReset p
      in p1\<lparr>inputs := map (\<lambda>f. f\<lparr>f_value := f_default f\<rparr>) (inputs p1)\<rparr>)"

definition formData :: "page \<Rightarrow> (string \<times> string) list" where
  "formData p = foldl (\<lambda>d f. if f_name f = [] then d else obj_set (f_name f) (f_value f) d) [] (inputs p)"

definition data_get :: "(string \<times> string) list \<Rightarrow> string \<Rightarrow> string option" where
  "data_get d k = map_of d k"

definition template_value :: "string option \<Rightarrow> string" where
  "template_value v = (case v of None \<Rightarrow> ''undefined'' | Some s \<Rightarrow> s)"

definition mailtoLink :: "(string \<times> string) list \<Rightarrow> string" where
  "mailtoLink d =
     (let subject = encodeURIComponent
            (if truthy (data_get d ''subject'') then template_value (data_get d ''subject'')
             else ''Contact Form Submission'');
          body = encodeURIComponent
            (''Name: '' @ template_value (data_get d ''name'') @ [CHR 0x0A]
             @ ''Email: '' @ template_value (data_get d ''email'') @ [CHR 0x0A, CHR 0x0A]
             @ ''Message:'' @ [CHR 0x0A] @ template_value (data_get d ''message''))
      in ''mailto:sadaruwan12@gmail.com?subject='' @ subject @ ''&body='' @ body)"

text \<open>Assigning a \<open>mailto:\<close> URL to \<open>window.location.href\<close> hands the link to the
  mail program; the page stays where it is, so \<open>loc_href\<close> is as before.\<close>

definition fallbackToMailto :: "(string \<times> string) list \<Rightarrow> page \<Rightarrow> page" where
  "fallbackToMailto d p = p\<lparr>navigations := navigations p @ [mailtoLink d]\<rparr>"

text \<open>The loop of \<open>submitFormData\<close> over the services: the name of the first service that
  answers with an ok response, or nothing when none does.  A rejected \<open>fetch\<close> is caught
  and logged; a response that is not ok falls through to the next service.  A request is
  its endpoint, its method and the object that \<open>JSON.stringify\<close> turns into the body;
  the two headers are the same in every request and are left out.\<close>

fun try_services :: "(request \<Rightarrow> fetch_outcome) \<Rightarrow> (string \<times> string) list \<Rightarrow> service list \<Rightarrow> page
                      \<Rightarrow> string option \<times> page" where
  "try_services net d [] p = (None, p)"
| "try_services net d (sv # svs) p =
     (let rq = \<lparr>rq_endpoint = sv_endpoint sv, rq_method = sv_method sv, rq_body = d\<rparr>;
          p1 = p\<lparr>fetch_log := fetch_log p @ [rq]\<rparr>
      in case net rq of
           Response ok \<Rightarrow> (if ok then (Some (sv_name sv), p1) else try_services net d svs p1)
         | NetworkError \<Rightarrow>
             try_services net d svs (p1\<lparr>page_console := page_console p1 @ [sv_name sv @ '' failed:'']\<rparr>))"

definition services :: "page \<Rightarrow> service list" where
  "services p =
     [\<lparr>sv_name = ''Formspree'', sv_endpoint = ''https://formspree.io/f/YOUR_FORM_ID'', sv_method = ''POST''\<rparr>,
      \<lparr>sv_name = ''Netlify Forms'', sv_endpoint = loc_href p, sv_method = ''POST''\<rparr>]"

text \<open>\<open>submitFormData\<close> resolves with \<open>{success: true, service: name}\<close>; a rejection
  would be the left summand.\<close>

definition submitFormData :: "(request \<Rightarrow> fetch_outcome) \<Rightarrow> (string \<times> string) list \<Rightarrow> page
                                \<Rightarrow> (js_error + bool \<times> string) \<times> page" where
  "submitFormData net d p =
     (let svs = services p;
          d1 = (if str_includes (loc_hostname p) ''netlify'' then obj_set ''form-name'' ''contact'' d else d)
      in case try_services net d1 svs p of
           (Some name, p1) \<Rightarrow> (Inr (True, name), p1)
         | (None, p1) \<Rightarrow> (Inr (True, ''mailto''), fallbackToMailto d1 p1))"

text \<open>The markup of the button while sending (the white space between the spans is
  left out).\<close>

definition sending_html :: string where
  "sending_html = ''<span class=\"btn-return-type\">Task&lt;bool&gt;</span><span class=\"btn-method\">Sending</span><span class=\"btn-params\">...</span>''"

text \<open>\<open>submitForm\<close> up to the \<open>try\<close> block: a missing submit button makes
  \<open>submitButton.innerHTML\<close> throw, with \<open>isSubmitting\<close> already set.\<close>

definition submitForm_start :: "page \<Rightarrow> (js_error + string) \<times> page" where
  "submitForm_start p =
     (let p1 = p\<lparr>isSubmitting := True\<rparr>
      in case submitBtn p1 of
           None \<Rightarrow> (Inl TypeError, p1)
         | Some b \<Rightarrow>
             (let originalText = b_innerHTML b;
                  p2 = p1\<lparr>submitBtn := Some (b\<lparr>b_disabled := True, b_innerHTML := sending_html\<rparr>)\<rparr>
              in (Inr originalText, showFormStatus ''Sending your message...'' ''loading'' p2)))"

definition submitForm_finally :: "string \<Rightarrow> page \<Rightarrow> page" where
  "submitForm_finally originalText p =
     p\<lparr>isSubmitting := False,
       submitBtn := map_option (\<lambda>b. b\<lparr>b_disabled := False, b_innerHTML := originalText\<rparr>) (submitBtn p)\<rparr>"

definition success_message :: string where
  "success_message = ''Message sent successfully! I'' @ [CHR 0x27] @ ''ll get back to you soon.''"

definition failure_message :: string where
  "failure_message = ''Failed to send message. Please try again or contact me directly.''"

text \<open>The \<open>try\<close>, \<open>catch\<close> and \<open>finally\<close> blocks of \<open>submitForm\<close>.\<close>

definition submitForm_try :: "(request \<Rightarrow> fetch_outcome) \<Rightarrow> string \<Rightarrow> (string \<times> string) list \<Rightarrow> page
                                \<Rightarrow> page" where
  "submitForm_try net originalText d p =
     (case submitFormData net d p of
        (Inr result, p1) \<Rightarrow>
          (let p2 = showFormStatus success_message ''success'' p1;
               p3 = form_reset p2;
               p4 = handleReset p3
           in submitForm_finally originalText p4)
      | (Inl e, p1) \<Rightarrow>
          (let p2 = p1\<lparr>page_console := page_console p1 @ [''Form submission error:'']\<rparr>;
               p3 = showFormStatus failure_message ''error'' p2
           in submitForm_finally originalText p3))"

definition submitForm :: "(request \<Rightarrow> fetch_outcome) \<Rightarrow> page \<Rightarrow> (js_error + unit) \<times> page" where
  "submitForm net p =
     (case submitForm_start p of
        (Inl e, p1) \<Rightarrow> (Inl e, p1)
      | (Inr originalText, p1) \<Rightarrow> (Inr (), submitForm_try net originalText (formData p1) p1))"

definition handleSubmit :: "(request \<Rightarrow> fetch_outcome) \<Rightarrow> page \<Rightarrow> submit_outcome \<times> page" where
  "handleSubmit net p =
     (if isSubmitting p then (AlreadySubmitting, p)
      else (let (isValid, p1) = validateForm p
            in if isValid
                 then (let (r, p2) = submitForm net p1 in (SubmitFormCalled r, p2))
               else (ValidationFailed,
                     showFormStatus ''Please fix the validation errors above.'' ''error'' p1)))"

subsection \<open>The form listeners of accessibility.js\<close>










subsection \<open>Notions used to state and prove the claims about the contact form\<close>

text \<open>What validation never changes of a field: everything but its class list and
  \<open>aria-invalid\<close>.\<close>

definition field_static :: "field \<Rightarrow> field" where
  "field_static f = f\<lparr>f_classes := [], f_aria_invalid := None\<rparr>"

definition same_form :: "page \<Rightarrow> page \<Rightarrow> bool" where
  "same_form p q \<longleftrightarrow>
     map field_static (inputs q) = map field_static (inputs p)
   \<and> dom (elements q) = dom (elements p)
   \<and> toUpperCase q = toUpperCase p"

definition same_net :: "page \<Rightarrow> page \<Rightarrow> bool" where
  "same_net p q \<longleftrightarrow>
     fetch_log q = fetch_log p \<and> navigations q = navigations p
   \<and> loc_href q = loc_href p \<and> loc_hostname q = loc_hostname p"

definition contact_field :: "string \<Rightarrow> string \<Rightarrow> nat option \<Rightarrow> nat option \<Rightarrow> string \<Rightarrow> string \<Rightarrow> field" where
  "contact_field ident type minl maxl label v =
     \<lparr>f_id = ident, f_name = ident, f_type = type, f_value = v, f_default = [], f_required = True,
      f_minlength = minl, f_maxlength = maxl, f_describedby = None, f_label = Some label,
      f_classes = [], f_aria_invalid = None\<rparr>"

definition empty_error :: err_el where
  "empty_error = \<lparr>e_text = [], e_classes = [''error-message'']\<rparr>"

definition contact_page :: "string \<Rightarrow> string \<Rightarrow> string \<Rightarrow> string \<Rightarrow> page" where
  "contact_page n e s m =
     \<lparr>inputs = [contact_field ''name'' ''text'' (Some 2) (Some 100) ''Your Name'' n,
                contact_field ''email'' ''email'' None None ''Email Address'' e,
                contact_field ''subject'' ''text'' (Some 5) (Some 200) ''Subject'' s,
                contact_field ''message'' ''textarea'' (Some 10) (Some 2000) ''Message'' m],
      elements = [''name-error'' \<mapsto> empty_error, ''email-error'' \<mapsto> empty_error,
                  ''subject-error'' \<mapsto> empty_error, ''message-error'' \<mapsto> empty_error],
      formStatus = Some \<lparr>s_text = [], s_className = ''form-status'', s_aria_live = None\<rparr>,
      submitBtn = Some \<lparr>b_disabled = False, b_innerHTML = ''SubmitMessage''\<rparr>,
      isSubmitting = False, loc_hostname = ''example.com'', loc_href = ''https://example.com/contact/'',
      fetch_log = [], navigations = [], status_log = [], page_console = [],
      toUpperCase = ascii_toUpperCase\<rparr>"

definition filled_page :: page where
  "filled_page = contact_page ''Ada'' ''ada@example.com'' ''Hello there'' ''A message of some length''"

definition form_data_sent :: "page \<Rightarrow> (string \<times> string) list \<Rightarrow> (string \<times> string) list" where
  "form_data_sent p d = (if str_includes (loc_hostname p) ''netlify'' then obj_set ''form-name'' ''contact'' d else d)"

definition first_request :: "page \<Rightarrow> (string \<times> string) list \<Rightarrow> request" where
  "first_request p d = \<lparr>rq_endpoint = ''https://formspree.io/f/YOUR_FORM_ID'', rq_method = ''POST'',
      rq_body = form_data_sent p d\<rparr>"

definition second_request :: "page \<Rightarrow> (string \<times> string) list \<Rightarrow> request" where
  "second_request p d = \<lparr>rq_endpoint = loc_href p, rq_method = ''POST'', rq_body = form_data_sent p d\<rparr>"





definition net_down :: "request \<Rightarrow> fetch_outcome" where
  "net_down rq = NetworkError"










section \<open>Mobile navigation (assets/js/navigation.js and the focus trap of accessibility.js)\<close>




















section \<open>Service worker (the script after TYPOGRAPHY.md)\<close>

text \<open>
  The cache storage of the origin is the list of its caches by name, in the order they were
  created; a cache is the list of its entries, a request URL with the response stored for
  it.  The network gives for a URL a response, or nothing when \<open>fetch\<close> rejects.
  Promises are run to their end, one handler after the other, so the \<open>cache.put\<close> that
  the fetch handler starts without waiting for it is done when the handler returns.  A
  request matches a cache entry by its URL.  \<open>skipWaiting\<close> and \<open>clients.claim\<close>
  do not touch the caches and are left out, as is the test \<open>!response\<close>, since
  \<open>fetch\<close> never resolves with an empty value.  The handler takes a request for
  same-origin when its URL starts with the origin.
\<close>

datatype response_type = Basic | Cors | Opaque | OtherType

record response =
  rs_status :: nat
  rs_type :: response_type
  rs_body :: string

record fetch_request =
  fr_method :: string
  fr_url :: string
  fr_mode :: string

type_synonym cache = "(string \<times> response) list"

type_synonym cache_storage = "(string \<times> cache) list"

datatype fetch_response = NotHandled | RespondWith "response option"

definition CACHE_NAME :: string where
  "CACHE_NAME = ''csharp-portfolio-v1''"

definition STATIC_CACHE_URLS :: "string list" where
  "STATIC_CACHE_URLS = [''/'', ''/css/main.css'', ''/js/bundle.js'', ''/offline.html'']"

subsection \<open>The Cache and CacheStorage interfaces of the browser\<close>

definition caches_open :: "string \<Rightarrow> cache_storage \<Rightarrow> cache_storage" where
  "caches_open name cs = (if name \<in> set (map fst cs) then cs else cs @ [(name, [])])"

definition caches_keys :: "cache_storage \<Rightarrow> string list" where
  "caches_keys cs = map fst cs"

definition caches_delete :: "string \<Rightarrow> cache_storage \<Rightarrow> cache_storage" where
  "caches_delete name cs = filter (\<lambda>e. fst e \<noteq> name) cs"

text \<open>\<open>caches.match\<close> looks through every cache of the origin, in creation order.\<close>

fun caches_match :: "cache_storage \<Rightarrow> string \<Rightarrow> response option" where
  "caches_match [] url = None"
| "caches_match (e # cs) url =
     (case map_of (snd e) url of Some r \<Rightarrow> Some r | None \<Rightarrow> caches_match cs url)"

definition cache_put :: "string \<Rightarrow> response \<Rightarrow> cache \<Rightarrow> cache" where
  "cache_put url r c =
     (if url \<in> set (map fst c) then map (\<lambda>e. if fst e = url then (url, r) else e) c
      else c @ [(url, r)])"

definition cache_put_in :: "string \<Rightarrow> string \<Rightarrow> response \<Rightarrow> cache_storage \<Rightarrow> cache_storage" where
  "cache_put_in name url r cs =
     map (\<lambda>e. if fst e = name then (name, cache_put url r (snd e)) else e) cs"

text \<open>What the cache of a given name holds for a URL.\<close>

definition cache_lookup :: "cache_storage \<Rightarrow> string \<Rightarrow> string \<Rightarrow> response option" where
  "cache_lookup cs name url = (case map_of cs name of None \<Rightarrow> None | Some c \<Rightarrow> map_of c url)"

definition response_ok :: "response \<Rightarrow> bool" where
  "response_ok r = (200 \<le> rs_status r \<and> rs_status r \<le> 299)"

text \<open>\<open>cache.addAll\<close>: every URL is fetched; if a fetch rejects or a response is not ok
  the promise rejects and nothing is stored.\<close>

fun fetch_all :: "(string \<Rightarrow> response option) \<Rightarrow> string list \<Rightarrow> (string \<times> response) list option" where
  "fetch_all net [] = Some []"
| "fetch_all net (u # us) =
     (case net u of
        None \<Rightarrow> None
      | Some r \<Rightarrow> (if response_ok r
                   then (case fetch_all net us of None \<Rightarrow> None | Some rs \<Rightarrow> Some ((u, r) # rs))
                   else None))"

definition cache_addAll :: "(string \<Rightarrow> response option) \<Rightarrow> string \<Rightarrow> string list \<Rightarrow> cache_storage
                              \<Rightarrow> js_error + cache_storage" where
  "cache_addAll net name urls cs =
     (case fetch_all net urls of
        None \<Rightarrow> Inl TypeError
      | Some rs \<Rightarrow> Inr (fold (\<lambda>e. cache_put_in name (fst e) (snd e)) rs cs))"

text \<open>A relative URL is resolved against the origin of the service worker.\<close>

definition resolve :: "string \<Rightarrow> string \<Rightarrow> string" where
  "resolve origin path = origin @ path"

subsection \<open>The three handlers\<close>

text \<open>\<open>install\<close>: a rejection leaves the worker uninstalled (the cache has been opened).\<close>

definition install :: "string \<Rightarrow> (string \<Rightarrow> response option) \<Rightarrow> cache_storage \<Rightarrow> js_error + cache_storage" where
  "install origin net cs =
     cache_addAll net CACHE_NAME (map (resolve origin) STATIC_CACHE_URLS) (caches_open CACHE_NAME cs)"

definition activate :: "cache_storage \<Rightarrow> cache_storage" where
  "activate cs =
     fold caches_delete (filter (\<lambda>cacheName. cacheName \<noteq> CACHE_NAME) (caches_keys cs)) cs"

text \<open>\<open>fetch\<close>: the second argument is what the network answers if it is asked.\<close>

definition onfetch :: "string \<Rightarrow> fetch_request \<Rightarrow> response option \<Rightarrow> cache_storage
                         \<Rightarrow> fetch_response \<times> cache_storage" where
  "onfetch origin rq network cs =
     (if fr_method rq \<noteq> ''GET'' then (NotHandled, cs)
      else if take (length origin) (fr_url rq) \<noteq> origin then (NotHandled, cs)
      else (case caches_match cs (fr_url rq) of
              Some cachedResponse \<Rightarrow> (RespondWith (Some cachedResponse), cs)
            | None \<Rightarrow>
                (case network of
                   Some resp \<Rightarrow>
                     (if rs_status resp \<noteq> 200 \<or> rs_type resp \<noteq> Basic
                      then (RespondWith (Some resp), cs)
                      else (RespondWith (Some resp),
                            cache_put_in CACHE_NAME (fr_url rq) resp (caches_open CACHE_NAME cs)))
                 | None \<Rightarrow>
                     (if fr_mode rq = ''navigate''
                      then (RespondWith (caches_match cs (resolve origin ''/offline.html'')), cs)
                      else (RespondWith None, cs)))))"

text \<open>The cache storage after a run of fetch events, each with the network's answer.\<close>

fun after_fetches :: "string \<Rightarrow> (fetch_request \<times> response option) list \<Rightarrow> cache_storage \<Rightarrow> cache_storage" where
  "after_fetches origin [] cs = cs"
| "after_fetches origin (ev # evs) cs =
     after_fetches origin evs (snd (onfetch origin (fst ev) (snd ev) cs))"

text \<open>Every cache of the storage has the current name.\<close>

definition only_current :: "cache_storage \<Rightarrow> bool" where
  "only_current cs = (\<forall>name \<in> set (caches_keys cs). name = CACHE_NAME)"

text \<open>An example: a site with an older cache, and a network that answers every request.\<close>

definition ex_origin :: string where
  "ex_origin = ''https://example.com''"

definition ex_page :: "string \<Rightarrow> response" where
  "ex_page b = \<lparr>rs_status = 200, rs_type = Basic, rs_body = b\<rparr>"

definition ex_net :: "string \<Rightarrow> response option" where
  "ex_net u = Some (ex_page u)"

definition ex_old :: cache_storage where
  "ex_old = [(''csharp-portfolio-v0'', [(''https://example.com/'', ex_page ''stale'')])]"

definition ex_installed :: cache_storage where
  "ex_installed =
     [(''csharp-portfolio-v0'', [(''https://example.com/'', ex_page ''stale'')]),
      (''csharp-portfolio-v1'',
         [(''https://example.com/'', ex_page ''https://example.com/''),
          (''https://example.com/css/main.css'', ex_page ''https://example.com/css/main.css''),
          (''https://example.com/js/bundle.js'', ex_page ''https://example.com/js/bundle.js''),
          (''https://example.com/offline.html'', ex_page ''https://example.com/offline.html'')])]"

definition ex_home :: fetch_request where
  "ex_home = \<lparr>fr_method = ''GET'', fr_url = ''https://example.com/'', fr_mode = ''navigate''\<rparr>"

definition ex_about :: fetch_request where
  "ex_about = \<lparr>fr_method = ''GET'', fr_url = ''https://example.com/about/'', fr_mode = ''navigate''\<rparr>"

section \<open>Theorems about the theme preference manager\<close>

lemma getStoredTheme_cases:
  "getStoredTheme w = (if getItem_throws w
      then (Inr None, console_warn ''Failed to read theme from localStorage:'' w)
      else (Inr (storage w storageKey), w))"
  by (simp add: getStoredTheme_def localStorage_getItem_def)

lemma storeTheme_cases:
  "storeTheme t w = (if setItem_throws w
      then (Inr (), console_warn ''Failed to store theme in localStorage:''
                      (w\<lparr>setItem_calls := setItem_calls w @ [(storageKey, t)]\<rparr>))
      else (Inr (), w\<lparr>setItem_calls := setItem_calls w @ [(storageKey, t)],
                       storage := (storage w)(storageKey \<mapsto> t)\<rparr>))"
  by (simp add: storeTheme_def localStorage_setItem_def Let_def)

lemma applyTheme_fields:
  "storage (applyTheme t w) = storage w"
  "setItem_calls (applyTheme t w) = setItem_calls w"
  "setItem_throws (applyTheme t w) = setItem_throws w"
  "getItem_throws (applyTheme t w) = getItem_throws w"
  "has_matchMedia (applyTheme t w) = has_matchMedia w"
  "prefers_dark (applyTheme t w) = prefers_dark w"
  "console (applyTheme t w) = console w"
  "data_theme (applyTheme t w) = (if t = AUTO then None else Some t)"
  "dispatched (applyTheme t w) = dispatched w @ [t]"
  "buttons (applyTheme t w) = map (\<lambda>b. updateButtonVisual t (updateButtonAria t b)) (buttons w)"
  by (simp_all add: applyTheme_def dispatchThemeChangeEvent_def updateToggleButtons_def Let_def)

lemma aria_after_update:
  "aria_pressed (updateButtonVisual t (updateButtonAria t b)) = Some (bool_toString (t = DARK))"
  "aria_label (updateButtonVisual t (updateButtonAria t b)) =
     Some (if t = DARK then ''Switch to light theme'' else ''Switch to dark theme'')"
  by (simp_all add: updateButtonVisual_def updateButtonAria_def Let_def split: option.splits)

lemma setInitialTheme_cases:
  "setInitialTheme w =
     (let w1 = snd (getStoredTheme w); sys = getSystemTheme w in
      case fst (getStoredTheme w) of
        Inr (Some s) \<Rightarrow> if s \<noteq> [] then (Inr (), applyTheme s w1)
                         else storeTheme sys (applyTheme sys w1)
      | _ \<Rightarrow> storeTheme sys (applyTheme sys w1))"
  by (simp add: setInitialTheme_def thenDo_def getStoredTheme_cases Let_def getSystemTheme_def
      console_warn_def split: option.splits)

lemma getCurrentTheme_initToggleButtons:
  "getCurrentTheme (initToggleButtons w) = getCurrentTheme w"
  by (simp add: initToggleButtons_def getCurrentTheme_def getSystemTheme_def split: option.splits)

lemma init_data_theme: "data_theme (snd (init w)) = data_theme (snd (setInitialTheme w))"
  by (simp add: init_def thenDo_def initToggleButtons_def split: prod.splits sum.splits)

lemma setInitialTheme_no_throw: "fst (setInitialTheme w) = Inr ()"
  by (simp add: setInitialTheme_cases Let_def storeTheme_cases getStoredTheme_cases
      split: option.splits sum.splits)

lemma init_no_throw: "fst (init w) = Inr ()"
  using setInitialTheme_no_throw [of w]
  by (cases "setInitialTheme w") (auto simp: init_def thenDo_def split: sum.splits)

lemma handle_cases:
  "handleSystemThemeChange m w =
     (if \<not> truthy (if getItem_throws w then None else storage w storageKey)
         \<or> (\<not> getItem_throws w \<and> storage w storageKey = Some AUTO)
      then (Inr (), applyTheme (if m then DARK else LIGHT) (snd (getStoredTheme w)))
      else (Inr (), w))"
  by (simp add: handleSystemThemeChange_def thenDo_def getStoredTheme_cases truthy_def)

lemma storeTheme_writes:
  "t \<in> set themes_values \<Longrightarrow>
   fst (storeTheme t w) = Inr ()
 \<and> (\<exists>new. setItem_calls (snd (storeTheme t w)) = setItem_calls w @ new \<and> list_all valid_write new)
 \<and> (\<forall>k. k \<noteq> storageKey \<longrightarrow> storage (snd (storeTheme t w)) k = storage w k)
 \<and> (storage (snd (storeTheme t w)) storageKey = storage w storageKey
      \<or> storage (snd (storeTheme t w)) storageKey \<in> Some ` set themes_values)"
  by (simp add: storeTheme_cases console_warn_def valid_write_def)

lemma getSystemTheme_valid: "getSystemTheme w \<in> set themes_values"
  by (simp add: getSystemTheme_def themes_values_def)

lemma step_inv_refl: "step_inv w w"
  by (simp add: step_inv_def)

lemma step_inv_trans: "step_inv a b \<Longrightarrow> step_inv b c \<Longrightarrow> step_inv a c"
  unfolding step_inv_def
  by (elim conjE exE) (auto simp: list_all_append)

lemma step_inv_same:
  "setItem_calls w' = setItem_calls w \<Longrightarrow> storage w' = storage w \<Longrightarrow> step_inv w w'"
  by (simp add: step_inv_def)

lemma step_inv_store_apply:
  "t \<in> set themes_values \<Longrightarrow> setItem_calls w1 = setItem_calls w \<Longrightarrow> storage w1 = storage w \<Longrightarrow>
   step_inv w (snd (storeTheme t (applyTheme t' w1)))"
  using storeTheme_writes [of t "applyTheme t' w1"]
  by (simp add: step_inv_def applyTheme_fields)

lemma getStoredTheme_fields:
  "setItem_calls (snd (getStoredTheme w)) = setItem_calls w"
  "storage (snd (getStoredTheme w)) = storage w"
  "setItem_throws (snd (getStoredTheme w)) = setItem_throws w"
  by (simp_all add: getStoredTheme_cases console_warn_def)

lemma step_inv_store_apply_stored:
  "t \<in> set themes_values \<Longrightarrow> step_inv w (snd (storeTheme t (applyTheme t' (snd (getStoredTheme w)))))"
  by (rule step_inv_store_apply) (simp_all add: getStoredTheme_fields)

lemma step_inv_store_apply_direct:
  "t \<in> set themes_values \<Longrightarrow> step_inv w (snd (storeTheme t (applyTheme t' w)))"
  by (rule step_inv_store_apply) simp_all

lemma step_inv_apply_stored: "step_inv w (applyTheme t (snd (getStoredTheme w)))"
  by (rule step_inv_same) (simp_all add: applyTheme_fields getStoredTheme_fields)

lemma setInitialTheme_inv: "step_inv w (snd (setInitialTheme w))"
  by (simp add: setInitialTheme_cases Let_def getSystemTheme_valid step_inv_store_apply_stored
      step_inv_apply_stored split: sum.splits option.splits)

lemma toggle_inv: "step_inv w (snd (toggle w))"
  by (simp add: toggle_def Let_def themes_values_def step_inv_store_apply_direct)

lemma setTheme_inv: "step_inv w (snd (setTheme t w))"
  by (simp add: setTheme_def console_warn_def step_inv_store_apply_direct step_inv_same)

lemma handle_inv: "step_inv w (snd (handleSystemThemeChange m w))"
  by (simp add: handle_cases step_inv_apply_stored step_inv_refl)

lemma init_inv: "step_inv w (snd (init w))"
proof -
  obtain r w1 where s: "setInitialTheme w = (r, w1)" by (cases "setInitialTheme w")
  have "step_inv w w1" using setInitialTheme_inv [of w] s by simp
  moreover have "step_inv w1 (snd (init w))"
    using s by (auto simp: init_def thenDo_def initToggleButtons_def step_inv_refl
        intro!: step_inv_same split: sum.splits)
  ultimately show ?thesis by (rule step_inv_trans)
qed

lemma theme_step_inv: "step_inv w (snd (theme_step ev w))"
proof (cases ev)
  case Init then show ?thesis by (simp add: theme_step_def init_inv)
next
  case ButtonClick then show ?thesis by (simp add: theme_step_def button_click_def toggle_inv)
next
  case (KeyDown c s k) then show ?thesis
    by (simp add: theme_step_def keydown_shortcut_def toggle_inv step_inv_refl)
next
  case (SetTheme t) then show ?thesis by (simp add: theme_step_def setTheme_inv)
next
  case (SystemThemeChange m)
  have "step_inv w (w\<lparr>prefers_dark := m\<rparr>)" by (simp add: step_inv_same)
  moreover have "step_inv (w\<lparr>prefers_dark := m\<rparr>) (snd (handleSystemThemeChange m (w\<lparr>prefers_dark := m\<rparr>)))"
    by (rule handle_inv)
  ultimately have "step_inv w (snd (handleSystemThemeChange m (w\<lparr>prefers_dark := m\<rparr>)))"
    by (rule step_inv_trans)
  with SystemThemeChange show ?thesis by (simp add: theme_step_def step_inv_refl)
qed

lemma theme_run_inv: "step_inv w (theme_run evs w)"
proof (induction evs arbitrary: w)
  case Nil show ?case by (simp add: step_inv_refl)
next
  case (Cons ev evs)
  have "step_inv w (snd (theme_step ev w))" by (rule theme_step_inv)
  moreover have "step_inv (snd (theme_step ev w)) (theme_run evs (snd (theme_step ev w)))"
    by (rule Cons.IH)
  ultimately show ?case by (simp add: step_inv_trans)
qed

lemma storeTheme_no_throw: "fst (storeTheme t w) = Inr ()"
  by (simp add: storeTheme_cases)

lemma toggle_no_throw: "fst (toggle w) = Inr ()"
  by (simp add: toggle_def Let_def storeTheme_no_throw)

lemma setTheme_no_throw: "fst (setTheme t w) = Inr ()"
  by (simp add: setTheme_def storeTheme_no_throw)

lemma handle_no_throw: "fst (handleSystemThemeChange m w) = Inr ()"
  by (simp add: handle_cases)

lemma theme_step_no_throw: "fst (theme_step ev w) = Inr ()"
  by (cases ev)
     (simp_all add: theme_step_def init_no_throw button_click_def keydown_shortcut_def
        toggle_no_throw setTheme_no_throw handle_no_throw)


section \<open>The claims about the theme preference manager\<close>

text \<open>
  Claim C1.  On a change of the system colour scheme, \<open>handleSystemThemeChange\<close> leaves
  the page as it is when \<open>light\<close> or \<open>dark\<close> is stored.  If it changes the
  \<open>data-theme\<close> attribute, the toggle buttons or dispatches an event, then what
  \<open>getStoredTheme\<close> returned was \<open>null\<close>, the empty string or \<open>auto\<close>; and in
  those cases it applies the theme of the event.  Read together with initialization: after
  an \<open>init\<close> on a working storage a truthy value is stored, so the handler changes the
  page only when that value is \<open>auto\<close>.
\<close>

theorem system_change_only_without_preference:
  "(\<forall>s. localStorage_getItem w storageKey = Inr (Some s) \<and> (s = LIGHT \<or> s = DARK) \<longrightarrow>
       handleSystemThemeChange m w = (Inr (), w))
 \<and> (data_theme (snd (handleSystemThemeChange m w)) \<noteq> data_theme w
      \<or> buttons (snd (handleSystemThemeChange m w)) \<noteq> buttons w
      \<or> dispatched (snd (handleSystemThemeChange m w)) \<noteq> dispatched w \<longrightarrow>
       fst (getStoredTheme w) \<in> {Inr None, Inr (Some []), Inr (Some AUTO)})
 \<and> (fst (getStoredTheme w) \<in> {Inr None, Inr (Some []), Inr (Some AUTO)} \<longrightarrow>
       fst (handleSystemThemeChange m w) = Inr ()
     \<and> data_theme (snd (handleSystemThemeChange m w)) = Some (if m then DARK else LIGHT)
     \<and> snd (handleSystemThemeChange m w)
         = applyTheme (if m then DARK else LIGHT) (snd (getStoredTheme w)))
 \<and> (\<not> getItem_throws w \<and> \<not> setItem_throws w \<longrightarrow>
       truthy (storage (snd (init w)) storageKey)
     \<and> (storage (snd (init w)) storageKey \<noteq> Some AUTO \<longrightarrow>
          handleSystemThemeChange m (snd (init w)) = (Inr (), snd (init w))))"
proof (intro conjI)
  show "\<forall>s. localStorage_getItem w storageKey = Inr (Some s) \<and> (s = LIGHT \<or> s = DARK) \<longrightarrow>
       handleSystemThemeChange m w = (Inr (), w)"
    by (auto simp: handle_cases localStorage_getItem_def truthy_def LIGHT_def DARK_def AUTO_def
        split: if_splits)
  show "data_theme (snd (handleSystemThemeChange m w)) \<noteq> data_theme w
      \<or> buttons (snd (handleSystemThemeChange m w)) \<noteq> buttons w
      \<or> dispatched (snd (handleSystemThemeChange m w)) \<noteq> dispatched w \<longrightarrow>
       fst (getStoredTheme w) \<in> {Inr None, Inr (Some []), Inr (Some AUTO)}"
    by (auto simp: handle_cases getStoredTheme_cases truthy_def split: if_splits option.splits)
  show "fst (getStoredTheme w) \<in> {Inr None, Inr (Some []), Inr (Some AUTO)} \<longrightarrow>
       fst (handleSystemThemeChange m w) = Inr ()
     \<and> data_theme (snd (handleSystemThemeChange m w)) = Some (if m then DARK else LIGHT)
     \<and> snd (handleSystemThemeChange m w)
         = applyTheme (if m then DARK else LIGHT) (snd (getStoredTheme w))"
    by (auto simp: handle_cases getStoredTheme_cases truthy_def applyTheme_fields
        LIGHT_def DARK_def AUTO_def split: if_splits option.splits)
  show "\<not> getItem_throws w \<and> \<not> setItem_throws w \<longrightarrow>
       truthy (storage (snd (init w)) storageKey)
     \<and> (storage (snd (init w)) storageKey \<noteq> Some AUTO \<longrightarrow>
          handleSystemThemeChange m (snd (init w)) = (Inr (), snd (init w)))"
    by (auto simp: handle_cases init_def thenDo_def setInitialTheme_cases getStoredTheme_cases
        Let_def storeTheme_cases applyTheme_fields initToggleButtons_def truthy_def
        getSystemTheme_def LIGHT_def DARK_def AUTO_def
        split: if_splits option.splits)
qed

theorem system_change_only_without_preference_witness:
  "handleSystemThemeChange True world_light = (Inr (), world_light)
 \<and> data_theme (snd (handleSystemThemeChange True world_fresh)) = Some ''dark''
 \<and> data_theme (snd (handleSystemThemeChange True world_fresh)) \<noteq> data_theme world_fresh
 \<and> fst (getStoredTheme world_fresh) = Inr None
 \<and> storage (snd (init world_fresh)) storageKey = Some ''dark''
 \<and> handleSystemThemeChange False (snd (init world_fresh)) = (Inr (), snd (init world_fresh))"
proof -
  have g1: "localStorage_getItem world_light storageKey = Inr (Some LIGHT) \<and> (LIGHT = LIGHT \<or> LIGHT = DARK)"
    by (simp add: world_light_def localStorage_getItem_def storageKey_def LIGHT_def)
  have g2: "fst (getStoredTheme world_fresh) = Inr None"
    by (simp add: world_fresh_def getStoredTheme_def localStorage_getItem_def)
  then have g2': "fst (getStoredTheme world_fresh) \<in> {Inr None, Inr (Some []), Inr (Some AUTO)}"
    by simp
  have g3: "\<not> getItem_throws world_fresh \<and> \<not> setItem_throws world_fresh"
    by (simp add: world_fresh_def)
  have g4: "storage (snd (init world_fresh)) storageKey = Some ''dark''"
    by (simp add: world_fresh_def init_def thenDo_def setInitialTheme_def getStoredTheme_def
        localStorage_getItem_def storeTheme_def localStorage_setItem_def getSystemTheme_def
        applyTheme_def dispatchThemeChangeEvent_def updateToggleButtons_def
        initToggleButtons_def Let_def DARK_def)
  then have g4': "storage (snd (init world_fresh)) storageKey \<noteq> Some AUTO"
    by (simp add: AUTO_def)
  have g5: "data_theme world_fresh = None"
    by (simp add: world_fresh_def)
  have a: "handleSystemThemeChange True world_light = (Inr (), world_light)"
    using system_change_only_without_preference [of world_light True] g1 by blast
  have "data_theme (snd (handleSystemThemeChange True world_fresh)) = Some (if True then DARK else LIGHT)"
    using system_change_only_without_preference [of world_fresh True] g2' by blast
  then have b: "data_theme (snd (handleSystemThemeChange True world_fresh)) = Some ''dark''"
    by (simp add: DARK_def)
  have c: "handleSystemThemeChange False (snd (init world_fresh)) = (Inr (), snd (init world_fresh))"
    using system_change_only_without_preference [of world_fresh False] g3 g4' by blast
  show ?thesis
    using a b c g2 g4 g5 by simp
qed

text \<open>
  Claim C3, as the claim states it, fails where the storage rejects the write: the
  toggle from \<open>light\<close> computes \<open>dark\<close>, applies it, and nothing is stored.
\<close>

theorem toggle_persist_counterexample:
  "getCurrentTheme world_readonly = ''light''
 \<and> fst (toggle world_readonly) = Inr ()
 \<and> data_theme (snd (toggle world_readonly)) = Some ''dark''
 \<and> storage (snd (toggle world_readonly)) storageKey \<noteq> Some ''dark''"
  by (simp add: world_readonly_def toggle_def storeTheme_cases applyTheme_fields
      getCurrentTheme_def LIGHT_def DARK_def AUTO_def Let_def console_warn_def)

text \<open>
  Claim C3, amended.  A toggle (a click on a toggle button, or Ctrl+Shift+T) computes the
  new theme, \<open>dark\<close> if the current resolved theme is \<open>light\<close> and \<open>light\<close>
  otherwise, sets it as the \<open>data-theme\<close> attribute and calls \<open>localStorage.setItem\<close>
  once, with the storage key and the new theme.  The new theme is stored when that call does
  not throw; when it throws, the storage is as before and a warning is logged.  Every toggle
  button then has \<open>aria-pressed\<close> equal to \<open>true\<close> iff the new theme is dark, and the
  matching \<open>aria-label\<close>.
\<close>

theorem toggle_applies_and_records:
  "(let newTheme = (if getCurrentTheme w = LIGHT then DARK else LIGHT); w' = snd (toggle w) in
      fst (toggle w) = Inr ()
    \<and> data_theme w' = Some newTheme
    \<and> setItem_calls w' = setItem_calls w @ [(storageKey, newTheme)]
    \<and> (\<not> setItem_throws w \<longrightarrow> storage w' = (storage w)(storageKey \<mapsto> newTheme))
    \<and> (setItem_throws w \<longrightarrow> storage w' = storage w
          \<and> console w' = console w @ [''Failed to store theme in localStorage:''])
    \<and> length (buttons w') = length (buttons w)
    \<and> (\<forall>b \<in> set (buttons w').
          (aria_pressed b = Some ''true'') = (newTheme = DARK)
        \<and> aria_pressed b = Some (bool_toString (newTheme = DARK))
        \<and> aria_label b = Some (if newTheme = DARK then ''Switch to light theme''
                                else ''Switch to dark theme''))
    \<and> button_click w = toggle w
    \<and> keydown_shortcut True True ''T'' w = toggle w)"
proof -
  define newTheme where "newTheme = (if getCurrentTheme w = LIGHT then DARK else LIGHT)"
  have t: "toggle w = storeTheme newTheme (applyTheme newTheme w)"
    by (simp add: toggle_def newTheme_def Let_def)
  have na: "newTheme \<noteq> AUTO"
    by (simp add: newTheme_def LIGHT_def DARK_def AUTO_def)
  have "fst (toggle w) = Inr ()
    \<and> data_theme (snd (toggle w)) = Some newTheme
    \<and> setItem_calls (snd (toggle w)) = setItem_calls w @ [(storageKey, newTheme)]
    \<and> (\<not> setItem_throws w \<longrightarrow> storage (snd (toggle w)) = (storage w)(storageKey \<mapsto> newTheme))
    \<and> (setItem_throws w \<longrightarrow> storage (snd (toggle w)) = storage w
          \<and> console (snd (toggle w)) = console w @ [''Failed to store theme in localStorage:''])
    \<and> length (buttons (snd (toggle w))) = length (buttons w)
    \<and> (\<forall>b \<in> set (buttons (snd (toggle w))).
          (aria_pressed b = Some ''true'') = (newTheme = DARK)
        \<and> aria_pressed b = Some (bool_toString (newTheme = DARK))
        \<and> aria_label b = Some (if newTheme = DARK then ''Switch to light theme''
                                else ''Switch to dark theme''))
    \<and> button_click w = toggle w
    \<and> keydown_shortcut True True ''T'' w = toggle w"
    unfolding t storeTheme_cases
    using na
    by (auto simp: applyTheme_fields aria_after_update bool_toString_def console_warn_def
        button_click_def keydown_shortcut_def t storeTheme_cases)
  then show ?thesis
    unfolding Let_def newTheme_def .
qed

theorem toggle_applies_and_records_witness:
  "data_theme (snd (toggle world_light)) = Some ''dark''
 \<and> storage (snd (toggle world_light)) storageKey = Some ''dark''
 \<and> list_all (\<lambda>b. aria_pressed b = Some ''true'' \<and> aria_label b = Some ''Switch to light theme'')
      (buttons (snd (toggle world_light)))
 \<and> length (buttons (snd (toggle world_light))) = 2
 \<and> storage (snd (toggle world_readonly)) = Map.empty"
proof -
  have c1: "getCurrentTheme world_light = LIGHT"
    by (simp add: world_light_def getCurrentTheme_def LIGHT_def)
  have f: "\<not> setItem_throws world_light" "storage world_light = [storageKey \<mapsto> ''light'']"
    "length (buttons world_light) = 2" "setItem_throws world_readonly"
    "storage world_readonly = Map.empty"
    by (simp_all add: world_light_def world_readonly_def)
  note T = toggle_applies_and_records [of world_light, unfolded Let_def c1, simplified]
  have a1: "data_theme (snd (toggle world_light)) = Some DARK"
    using T by blast
  have a2: "storage (snd (toggle world_light)) = (storage world_light)(storageKey \<mapsto> DARK)"
    using T f(1) by blast
  have a3: "length (buttons (snd (toggle world_light))) = length (buttons world_light)"
    using T by blast
  have a4: "\<forall>b \<in> set (buttons (snd (toggle world_light))).
          aria_pressed b = Some ''true'' \<and> aria_label b = Some ''Switch to light theme''"
    using T by blast
  have b: "storage (snd (toggle world_readonly)) = storage world_readonly"
    using toggle_applies_and_records [of world_readonly, unfolded Let_def] f(4) by blast
  show ?thesis
    using a1 a2 a3 a4 b f by (simp add: DARK_def list_all_iff)
qed

text \<open>
  Claim C4.  \<open>getSystemTheme\<close> is \<open>dark\<close> when the \<open>prefers-color-scheme: dark\<close> media
  query matches and \<open>light\<close> otherwise.  An initialization that reads no stored
  preference (\<open>getItem\<close> returns \<open>null\<close>, or the empty string, which JavaScript treats
  alike) applies the system theme: it is the \<open>data-theme\<close> attribute and the current
  theme afterwards.  An initialization that reads a stored preference applies that one
  instead (\<open>auto\<close> is applied by removing the attribute).
\<close>

theorem initial_theme_resolution:
  "(getSystemTheme w = DARK \<longleftrightarrow> has_matchMedia w \<and> prefers_dark w)
 \<and> (getSystemTheme w = LIGHT \<longleftrightarrow> \<not> (has_matchMedia w \<and> prefers_dark w))
 \<and> (localStorage_getItem w storageKey = Inr None \<longrightarrow>
       fst (init w) = Inr ()
     \<and> data_theme (snd (init w)) = Some (getSystemTheme w)
     \<and> getCurrentTheme (snd (init w)) = getSystemTheme w
     \<and> snd (setInitialTheme w) = snd (storeTheme (getSystemTheme w) (applyTheme (getSystemTheme w) w)))
 \<and> (\<forall>s. localStorage_getItem w storageKey = Inr (Some s) \<and> s \<noteq> [] \<longrightarrow>
       fst (init w) = Inr ()
     \<and> snd (setInitialTheme w) = applyTheme s w
     \<and> data_theme (snd (init w)) = (if s = AUTO then None else Some s)
     \<and> (s \<noteq> AUTO \<longrightarrow> getCurrentTheme (snd (init w)) = s))
 \<and> (localStorage_getItem w storageKey = Inr (Some []) \<longrightarrow>
       data_theme (snd (init w)) = Some (getSystemTheme w))"
  by (auto simp: init_no_throw init_def thenDo_def getCurrentTheme_initToggleButtons
      setInitialTheme_cases getStoredTheme_cases localStorage_getItem_def Let_def
      storeTheme_cases applyTheme_fields getCurrentTheme_def getSystemTheme_def
      initToggleButtons_def console_warn_def
      LIGHT_def DARK_def AUTO_def split: if_splits)

theorem initial_theme_resolution_witness:
  "data_theme (snd (init world_fresh)) = Some ''dark''
 \<and> getCurrentTheme (snd (init world_fresh)) = ''dark''
 \<and> data_theme (snd (init world_light)) = Some ''light''
 \<and> getCurrentTheme (snd (init world_light)) = ''light''
 \<and> data_theme (snd (init (world_fresh\<lparr>storage := [storageKey \<mapsto> []]\<rparr>))) = Some ''dark''"
proof -
  have g1: "localStorage_getItem world_fresh storageKey = Inr None"
    by (simp add: world_fresh_def localStorage_getItem_def)
  have g2: "localStorage_getItem world_light storageKey = Inr (Some ''light'')"
    by (simp add: world_light_def localStorage_getItem_def)
  have g3: "localStorage_getItem (world_fresh\<lparr>storage := [storageKey \<mapsto> []]\<rparr>) storageKey
              = Inr (Some [])"
    by (simp add: world_fresh_def localStorage_getItem_def)
  have s: "getSystemTheme world_fresh = ''dark''"
    "getSystemTheme (world_fresh\<lparr>storage := [storageKey \<mapsto> []]\<rparr>) = ''dark''"
    by (simp_all add: world_fresh_def getSystemTheme_def DARK_def)
  show ?thesis
    using initial_theme_resolution [of world_fresh] initial_theme_resolution [of world_light]
      initial_theme_resolution [of "world_fresh\<lparr>storage := [storageKey \<mapsto> []]\<rparr>"]
      g1 g2 g3 s
    by (simp add: AUTO_def)
qed

text \<open>
  Claim C5.  After every sequence of operations (init, toggle by click or by key, setTheme,
  system theme change), every call of \<open>localStorage.setItem\<close> the theme manager has made
  used the key \<open>csharp-portfolio-theme\<close> and one of the values \<open>light\<close>, \<open>dark\<close>,
  \<open>auto\<close>; no other key of the storage has changed, and the value under the key is the
  one from before or one of the three.  \<open>setTheme\<close> with any other argument only logs a
  warning: nothing is applied or stored.
\<close>

theorem storage_writes_invariant:
  "(\<exists>new. setItem_calls (theme_run evs w) = setItem_calls w @ new
          \<and> (\<forall>c \<in> set new. fst c = storageKey \<and> snd c \<in> {''light'', ''dark'', ''auto''}))
 \<and> (\<forall>k. k \<noteq> storageKey \<longrightarrow> storage (theme_run evs w) k = storage w k)
 \<and> (storage (theme_run evs w) storageKey = storage w storageKey
      \<or> storage (theme_run evs w) storageKey \<in> {Some ''light'', Some ''dark'', Some ''auto''})
 \<and> (t \<notin> {''light'', ''dark'', ''auto''} \<longrightarrow>
       setTheme t w = (Inr (), w\<lparr>console := console w @ [''Invalid theme: '' @ t]\<rparr>))
 \<and> storageKey = ''csharp-portfolio-theme''"
  using theme_run_inv [of w evs]
  by (auto simp: step_inv_def valid_write_def list_all_iff themes_values_def LIGHT_def DARK_def
      AUTO_def setTheme_def console_warn_def storageKey_def)

theorem storage_writes_invariant_witness:
  "setItem_calls (theme_run [Init, ButtonClick, SetTheme ''blue'', SetTheme ''auto'',
       SystemThemeChange False, KeyDown True True ''T''] world_fresh)
     = [(''csharp-portfolio-theme'', ''dark''), (''csharp-portfolio-theme'', ''light''),
        (''csharp-portfolio-theme'', ''auto''), (''csharp-portfolio-theme'', ''dark'')]
 \<and> setTheme ''blue'' world_fresh
     = (Inr (), world_fresh\<lparr>console := [''Invalid theme: blue'']\<rparr>)
 \<and> (\<exists>new. setItem_calls (theme_run [Init, ButtonClick] world_fresh) = new
       \<and> (\<forall>c \<in> set new. fst c = storageKey \<and> snd c \<in> {''light'', ''dark'', ''auto''}))"
proof -
  have r: "setItem_calls (theme_run [Init, ButtonClick, SetTheme ''blue'', SetTheme ''auto'',
       SystemThemeChange False, KeyDown True True ''T''] world_fresh)
     = [(''csharp-portfolio-theme'', ''dark''), (''csharp-portfolio-theme'', ''light''),
        (''csharp-portfolio-theme'', ''auto''), (''csharp-portfolio-theme'', ''dark'')]"
    by (simp add: world_fresh_def theme_step_def init_def thenDo_def setInitialTheme_def
        getStoredTheme_def localStorage_getItem_def storeTheme_def localStorage_setItem_def
        getSystemTheme_def applyTheme_def dispatchThemeChangeEvent_def updateToggleButtons_def
        initToggleButtons_def button_click_def keydown_shortcut_def toggle_def setTheme_def
        handleSystemThemeChange_def getCurrentTheme_def console_warn_def truthy_def
        themes_values_def storageKey_def Let_def DARK_def LIGHT_def AUTO_def)
  have c: "console world_fresh = []" "setItem_calls world_fresh = []"
    by (simp_all add: world_fresh_def)
  show ?thesis
    using storage_writes_invariant [of "[Init, ButtonClick]" world_fresh "''blue''"] r c
    by simp
qed

text \<open>
  Claim C6.  A failing \<open>localStorage.getItem\<close> makes \<open>getStoredTheme\<close> return
  \<open>null\<close> and log a warning; a failing \<open>localStorage.setItem\<close> makes \<open>storeTheme\<close>
  return normally, the storage unchanged, with a warning logged.  Neither throws, and no
  operation of the theme manager does.  With an unreadable storage the initialization and
  the system-theme handler follow the system preference.
\<close>

theorem storage_failures_caught:
  "(getItem_throws w \<longrightarrow>
      getStoredTheme w = (Inr None, w\<lparr>console := console w @ [''Failed to read theme from localStorage:'']\<rparr>))
 \<and> (\<not> getItem_throws w \<longrightarrow> getStoredTheme w = (Inr (storage w storageKey), w))
 \<and> (setItem_throws w \<longrightarrow>
      fst (storeTheme t w) = Inr ()
    \<and> storage (snd (storeTheme t w)) = storage w
    \<and> console (snd (storeTheme t w)) = console w @ [''Failed to store theme in localStorage:''])
 \<and> (\<not> setItem_throws w \<longrightarrow>
      fst (storeTheme t w) = Inr ()
    \<and> storage (snd (storeTheme t w)) = (storage w)(storageKey \<mapsto> t)
    \<and> console (snd (storeTheme t w)) = console w)
 \<and> (getItem_throws w \<longrightarrow>
      fst (init w) = Inr () \<and> data_theme (snd (init w)) = Some (getSystemTheme w)
    \<and> (\<forall>m. fst (handleSystemThemeChange m w) = Inr ()
           \<and> data_theme (snd (handleSystemThemeChange m w)) = Some (if m then DARK else LIGHT)))
 \<and> fst (theme_step ev w) = Inr ()"
proof (intro conjI)
  show "getItem_throws w \<longrightarrow>
      getStoredTheme w = (Inr None, w\<lparr>console := console w @ [''Failed to read theme from localStorage:'']\<rparr>)"
    by (simp add: getStoredTheme_cases console_warn_def)
  show "\<not> getItem_throws w \<longrightarrow> getStoredTheme w = (Inr (storage w storageKey), w)"
    by (simp add: getStoredTheme_cases)
  show "setItem_throws w \<longrightarrow>
      fst (storeTheme t w) = Inr ()
    \<and> storage (snd (storeTheme t w)) = storage w
    \<and> console (snd (storeTheme t w)) = console w @ [''Failed to store theme in localStorage:'']"
    by (simp add: storeTheme_cases console_warn_def)
  show "\<not> setItem_throws w \<longrightarrow>
      fst (storeTheme t w) = Inr ()
    \<and> storage (snd (storeTheme t w)) = (storage w)(storageKey \<mapsto> t)
    \<and> console (snd (storeTheme t w)) = console w"
    by (simp add: storeTheme_cases)
  show "getItem_throws w \<longrightarrow>
      fst (init w) = Inr () \<and> data_theme (snd (init w)) = Some (getSystemTheme w)
    \<and> (\<forall>m. fst (handleSystemThemeChange m w) = Inr ()
           \<and> data_theme (snd (handleSystemThemeChange m w)) = Some (if m then DARK else LIGHT))"
    by (auto simp: init_no_throw init_data_theme setInitialTheme_cases getStoredTheme_cases
        Let_def storeTheme_cases applyTheme_fields console_warn_def getSystemTheme_def
        handle_cases truthy_def LIGHT_def DARK_def AUTO_def)
  show "fst (theme_step ev w) = Inr ()"
    by (rule theme_step_no_throw)
qed

theorem storage_failures_caught_witness:
  "getStoredTheme world_blocked
     = (Inr None, world_blocked\<lparr>console := [''Failed to read theme from localStorage:'']\<rparr>)
 \<and> fst (storeTheme ''dark'' world_blocked) = Inr ()
 \<and> storage (snd (storeTheme ''dark'' world_blocked)) storageKey = Some ''light''
 \<and> console (snd (storeTheme ''dark'' world_blocked)) = [''Failed to store theme in localStorage:'']
 \<and> data_theme (snd (init world_blocked)) = Some ''dark''
 \<and> getStoredTheme world_light = (Inr (Some ''light''), world_light)
 \<and> storage (snd (storeTheme ''dark'' world_light)) storageKey = Some ''dark''"
proof -
  have f: "getItem_throws world_blocked" "setItem_throws world_blocked"
    "console world_blocked = []" "storage world_blocked = [storageKey \<mapsto> ''light'']"
    "getSystemTheme world_blocked = ''dark''"
    "\<not> getItem_throws world_light" "\<not> setItem_throws world_light"
    "storage world_light = [storageKey \<mapsto> ''light'']"
    by (simp_all add: world_blocked_def world_light_def getSystemTheme_def DARK_def)
  show ?thesis
    using storage_failures_caught [of world_blocked "''dark''" Init]
      storage_failures_caught [of world_light "''dark''" Init] f
    by simp
qed

section \<open>Lemmas about the contact form\<close>

lemma same_form_refl: "same_form p p"
  by (simp add: same_form_def)

lemma same_form_trans: "same_form p q \<Longrightarrow> same_form q r \<Longrightarrow> same_form p r"
  by (simp add: same_form_def)

lemma same_net_refl: "same_net p p"
  by (simp add: same_net_def)

lemma same_net_trans: "same_net p q \<Longrightarrow> same_net q r \<Longrightarrow> same_net p r"
  by (simp add: same_net_def)




lemma upd_field_static:
  assumes "\<And>f. field_static (g f) = field_static f"
  shows "map field_static (inputs (upd_field i g p)) = map field_static (inputs p)"
proof (cases "i < length (inputs p)")
  case True
  then show ?thesis
    by (simp add: upd_field_def map_update assms list_update_same_conv)
next
  case False
  then show ?thesis by (simp add: upd_field_def list_update_beyond)
qed

lemma upd_field_frame:
  "elements (upd_field i g p) = elements p"
  "formStatus (upd_field i g p) = formStatus p"
  "submitBtn (upd_field i g p) = submitBtn p"
  "isSubmitting (upd_field i g p) = isSubmitting p"
  "status_log (upd_field i g p) = status_log p"
  "same_net p (upd_field i g p)"
  "length (inputs (upd_field i g p)) = length (inputs p)"
  "toUpperCase (upd_field i g p) = toUpperCase p"
  by (simp_all add: upd_field_def same_net_def)

lemma upd_element_frame:
  "inputs (upd_element k g p) = inputs p"
  "dom (elements (upd_element k g p)) = dom (elements p)"
  "formStatus (upd_element k g p) = formStatus p"
  "submitBtn (upd_element k g p) = submitBtn p"
  "isSubmitting (upd_element k g p) = isSubmitting p"
  "status_log (upd_element k g p) = status_log p"
  "same_net p (upd_element k g p)"
  "toUpperCase (upd_element k g p) = toUpperCase p"
  by (auto simp: upd_element_def same_net_def split: option.splits)

lemma upd_element_other: "k' \<noteq> k \<Longrightarrow> elements (upd_element k g p) k' = elements p k'"
  by (simp add: upd_element_def split: option.splits)

lemma upd_element_at: "elements (upd_element k g p) k = map_option g (elements p k)"
  by (simp add: upd_element_def split: option.splits)



lemma showFieldError_frame:
  "map field_static (inputs (showFieldError i k m c p)) = map field_static (inputs p)"
  "dom (elements (showFieldError i k m c p)) = dom (elements p)"
  "formStatus (showFieldError i k m c p) = formStatus p"
  "submitBtn (showFieldError i k m c p) = submitBtn p"
  "isSubmitting (showFieldError i k m c p) = isSubmitting p"
  "status_log (showFieldError i k m c p) = status_log p"
  "same_net p (showFieldError i k m c p)"
  "toUpperCase (showFieldError i k m c p) = toUpperCase p"
  unfolding showFieldError_def Let_def
  by (simp_all add: upd_element_frame upd_field_frame upd_field_static field_static_def
      same_net_trans [OF upd_field_frame(6) upd_element_frame(7)])

lemma clearFieldError_frame:
  "map field_static (inputs (clearFieldError i p)) = map field_static (inputs p)"
  "dom (elements (clearFieldError i p)) = dom (elements p)"
  "formStatus (clearFieldError i p) = formStatus p"
  "submitBtn (clearFieldError i p) = submitBtn p"
  "isSubmitting (clearFieldError i p) = isSubmitting p"
  "status_log (clearFieldError i p) = status_log p"
  "same_net p (clearFieldError i p)"
  "toUpperCase (clearFieldError i p) = toUpperCase p"
  unfolding clearFieldError_def Let_def
  by (simp_all add: upd_element_frame upd_field_frame upd_field_static field_static_def
      same_net_trans [OF upd_element_frame(7) upd_field_frame(6)])

lemma validateField_frame:
  "map field_static (inputs (snd (validateField i r p))) = map field_static (inputs p)"
  "dom (elements (snd (validateField i r p))) = dom (elements p)"
  "formStatus (snd (validateField i r p)) = formStatus p"
  "submitBtn (snd (validateField i r p)) = submitBtn p"
  "isSubmitting (snd (validateField i r p)) = isSubmitting p"
  "status_log (snd (validateField i r p)) = status_log p"
  "toUpperCase (snd (validateField i r p)) = toUpperCase p"
  unfolding validateField_def Let_def
  by (simp_all add: showFieldError_frame clearFieldError_frame upd_field_frame upd_field_static
      field_static_def split: option.splits)

lemma validateField_same_net: "same_net p (snd (validateField i r p))"
  unfolding validateField_def Let_def
  by (auto simp: same_net_refl split: option.splits
      intro: same_net_trans [OF clearFieldError_frame(7) showFieldError_frame(7)]
        same_net_trans [OF clearFieldError_frame(7) upd_field_frame(6)] clearFieldError_frame(7))

lemma validateField_same_form: "same_form p (snd (validateField i r p))"
  by (simp add: same_form_def validateField_frame)

lemma validate_rule_frame:
  "same_form (snd acc) (snd (validate_rule r acc))"
  "same_net (snd acc) (snd (validate_rule r acc))"
  "formStatus (snd (validate_rule r acc)) = formStatus (snd acc)"
  "submitBtn (snd (validate_rule r acc)) = submitBtn (snd acc)"
  "isSubmitting (snd (validate_rule r acc)) = isSubmitting (snd acc)"
  "status_log (snd (validate_rule r acc)) = status_log (snd acc)"
  by (simp_all add: validate_rule_def Let_def split_beta validateField_same_form
      validateField_same_net validateField_frame)

lemma fold_validate_rule_frame:
  "same_form (snd acc) (snd (fold validate_rule rs acc))
 \<and> same_net (snd acc) (snd (fold validate_rule rs acc))
 \<and> formStatus (snd (fold validate_rule rs acc)) = formStatus (snd acc)
 \<and> submitBtn (snd (fold validate_rule rs acc)) = submitBtn (snd acc)
 \<and> isSubmitting (snd (fold validate_rule rs acc)) = isSubmitting (snd acc)
 \<and> status_log (snd (fold validate_rule rs acc)) = status_log (snd acc)"
proof (induction rs arbitrary: acc)
  case Nil
  show ?case by (simp add: same_form_refl same_net_refl)
next
  case (Cons r rs)
  show ?case
    using Cons.IH [of "validate_rule r acc"] validate_rule_frame [where acc=acc and r=r]
    by (auto intro: same_form_trans same_net_trans)
qed

lemma validateForm_frame:
  "same_form p (snd (validateForm p))"
  "same_net p (snd (validateForm p))"
  "formStatus (snd (validateForm p)) = formStatus p"
  "submitBtn (snd (validateForm p)) = submitBtn p"
  "isSubmitting (snd (validateForm p)) = isSubmitting p"
  "status_log (snd (validateForm p)) = status_log p"
  using fold_validate_rule_frame [of "(True, p)" form_rules]
  by (simp_all add: validateForm_def)

lemma formData_static:
  "map field_static (inputs q) = map field_static (inputs p) \<Longrightarrow> formData q = formData p"
proof -
  assume a: "map field_static (inputs q) = map field_static (inputs p)"
  have "\<And>p. formData p = foldl (\<lambda>d f. if f_name f = [] then d else obj_set (f_name f) (f_value f) d) []
                     (map field_static (inputs p))"
    by (simp add: formData_def foldl_map field_static_def cong: if_cong)
  then show ?thesis using a by simp
qed

lemma showFormStatus_frame:
  "inputs (showFormStatus m t p) = inputs p"
  "elements (showFormStatus m t p) = elements p"
  "submitBtn (showFormStatus m t p) = submitBtn p"
  "isSubmitting (showFormStatus m t p) = isSubmitting p"
  "status_log (showFormStatus m t p) = status_log p @ [(m, t)]"
  "same_net p (showFormStatus m t p)"
  "formStatus (showFormStatus m t p)
     = map_option (\<lambda>st. st\<lparr>s_text := m, s_className := ''form-status show '' @ t\<rparr>) (formStatus p)"
  "toUpperCase (showFormStatus m t p) = toUpperCase p"
  by (simp_all add: showFormStatus_def Let_def same_net_def split: option.splits)

lemma hideFormStatus_frame:
  "inputs (hideFormStatus p) = inputs p"
  "elements (hideFormStatus p) = elements p"
  "submitBtn (hideFormStatus p) = submitBtn p"
  "isSubmitting (hideFormStatus p) = isSubmitting p"
  "status_log (hideFormStatus p) = status_log p"
  "same_net p (hideFormStatus p)"
  "formStatus (hideFormStatus p)
     = map_option (\<lambda>st. st\<lparr>s_text := [], s_className := ''form-status''\<rparr>) (formStatus p)"
  by (simp_all add: hideFormStatus_def same_net_def split: option.splits)

lemma handleReset_frame:
  "submitBtn (handleReset p) = submitBtn p"
  "isSubmitting (handleReset p) = isSubmitting p"
  "status_log (handleReset p) = status_log p"
  "same_net p (handleReset p)"
  "formStatus (handleReset p)
     = map_option (\<lambda>st. st\<lparr>s_text := [], s_className := ''form-status''\<rparr>) (formStatus p)"
  by (simp_all add: handleReset_def Let_def hideFormStatus_def same_net_def split: option.splits)

lemma form_reset_frame:
  "submitBtn (form_reset p) = submitBtn p"
  "isSubmitting (form_reset p) = isSubmitting p"
  "status_log (form_reset p) = status_log p"
  "same_net p (form_reset p)"
  "formStatus (form_reset p)
     = map_option (\<lambda>st. st\<lparr>s_text := [], s_className := ''form-status''\<rparr>) (formStatus p)"
  using handleReset_frame [of p]
  by (simp_all add: form_reset_def Let_def same_net_def)

lemma try_services_fields:
  "loc_href (snd (try_services net d svs p)) = loc_href p"
  "navigations (snd (try_services net d svs p)) = navigations p"
  "formStatus (snd (try_services net d svs p)) = formStatus p"
  "status_log (snd (try_services net d svs p)) = status_log p"
  "inputs (snd (try_services net d svs p)) = inputs p"
  "elements (snd (try_services net d svs p)) = elements p"
  "submitBtn (snd (try_services net d svs p)) = submitBtn p"
  "isSubmitting (snd (try_services net d svs p)) = isSubmitting p"
  by (induction net d svs p rule: try_services.induct;
      simp add: Let_def split: fetch_outcome.splits)+

lemma submitFormData_cases:
  "(net (first_request p d) = Response True \<longrightarrow>
      submitFormData net d p
        = (Inr (True, ''Formspree''), p\<lparr>fetch_log := fetch_log p @ [first_request p d]\<rparr>))
 \<and> (net (first_request p d) \<noteq> Response True \<and> net (second_request p d) = Response True \<longrightarrow>
      fst (submitFormData net d p) = Inr (True, ''Netlify Forms'')
    \<and> fetch_log (snd (submitFormData net d p)) = fetch_log p @ [first_request p d, second_request p d]
    \<and> navigations (snd (submitFormData net d p)) = navigations p
    \<and> loc_href (snd (submitFormData net d p)) = loc_href p)
 \<and> (net (first_request p d) \<noteq> Response True \<and> net (second_request p d) \<noteq> Response True \<longrightarrow>
      fst (submitFormData net d p) = Inr (True, ''mailto'')
    \<and> fetch_log (snd (submitFormData net d p)) = fetch_log p @ [first_request p d, second_request p d]
    \<and> navigations (snd (submitFormData net d p)) = navigations p @ [mailtoLink (form_data_sent p d)]
    \<and> loc_href (snd (submitFormData net d p)) = loc_href p)"
proof -
  define r1 where "r1 = first_request p d"
  define r2 where "r2 = second_request p d"
  have s: "services p = [\<lparr>sv_name = ''Formspree'', sv_endpoint = rq_endpoint r1, sv_method = rq_method r1\<rparr>,
      \<lparr>sv_name = ''Netlify Forms'', sv_endpoint = rq_endpoint r2, sv_method = rq_method r2\<rparr>]"
    by (simp add: services_def r1_def r2_def first_request_def second_request_def)
  have b: "rq_body r1 = form_data_sent p d" "rq_body r2 = form_data_sent p d"
    by (simp_all add: r1_def r2_def first_request_def second_request_def)
  have e1: "\<lparr>rq_endpoint = rq_endpoint r1, rq_method = rq_method r1, rq_body = form_data_sent p d\<rparr> = r1"
    using b by simp
  have e2: "\<lparr>rq_endpoint = rq_endpoint r2, rq_method = rq_method r2, rq_body = form_data_sent p d\<rparr> = r2"
    using b by simp
  have u: "submitFormData net d p =
     (case try_services net (form_data_sent p d) (services p) p of
           (Some name, p1) \<Rightarrow> (Inr (True, name), p1)
         | (None, p1) \<Rightarrow> (Inr (True, ''mailto''), fallbackToMailto (form_data_sent p d) p1))"
    unfolding submitFormData_def form_data_sent_def Let_def by (rule refl)
  show ?thesis
    unfolding r1_def [symmetric] r2_def [symmetric] u s
    by (cases "net r1"; cases "net r2")
       (auto simp: e1 e2 Let_def fallbackToMailto_def)
qed

lemma submitFormData_resolves: "\<exists>name. fst (submitFormData net d p) = Inr (True, name)"
  unfolding submitFormData_def Let_def
  by (simp split: prod.splits option.splits)

lemma submitFormData_frame:
  "formStatus (snd (submitFormData net d p)) = formStatus p"
  "status_log (snd (submitFormData net d p)) = status_log p"
  "inputs (snd (submitFormData net d p)) = inputs p"
  "submitBtn (snd (submitFormData net d p)) = submitBtn p"
proof -
  obtain r q where t: "try_services net (form_data_sent p d) (services p) p = (r, q)"
    by (cases "try_services net (form_data_sent p d) (services p) p")
  have u: "submitFormData net d p =
     (case try_services net (form_data_sent p d) (services p) p of
           (Some name, p1) \<Rightarrow> (Inr (True, name), p1)
         | (None, p1) \<Rightarrow> (Inr (True, ''mailto''), fallbackToMailto (form_data_sent p d) p1))"
    unfolding submitFormData_def form_data_sent_def Let_def by (rule refl)
  have q: "formStatus q = formStatus p" "status_log q = status_log p" "inputs q = inputs p"
    "submitBtn q = submitBtn p"
    using try_services_fields [of net "form_data_sent p d" "services p" p] t by simp_all
  show "formStatus (snd (submitFormData net d p)) = formStatus p"
    "status_log (snd (submitFormData net d p)) = status_log p"
    "inputs (snd (submitFormData net d p)) = inputs p"
    "submitBtn (snd (submitFormData net d p)) = submitBtn p"
    using q by (simp_all add: u t fallbackToMailto_def split: option.splits)
qed

text \<open>The requests and navigations of submitFormData depend on the page only through
  its location and what was logged before.\<close>

lemma submitFormData_same_net:
  assumes "same_net p q"
  shows "fetch_log (snd (submitFormData net d q)) = fetch_log (snd (submitFormData net d p))"
    and "navigations (snd (submitFormData net d q)) = navigations (snd (submitFormData net d p))"
    and "fst (submitFormData net d q) = fst (submitFormData net d p)"
proof -
  have r: "first_request q d = first_request p d" "second_request q d = second_request p d"
    "form_data_sent q d = form_data_sent p d" "fetch_log q = fetch_log p"
    "navigations q = navigations p"
    using assms by (simp_all add: same_net_def first_request_def second_request_def form_data_sent_def)
  have c: "net (first_request p d) = Response True
     \<or> (net (first_request p d) \<noteq> Response True \<and> net (second_request p d) = Response True)
     \<or> (net (first_request p d) \<noteq> Response True \<and> net (second_request p d) \<noteq> Response True)"
    by blast
  show "fetch_log (snd (submitFormData net d q)) = fetch_log (snd (submitFormData net d p))"
    using c submitFormData_cases [of net p d] submitFormData_cases [of net q d] r
    by (elim disjE) simp_all
  show "navigations (snd (submitFormData net d q)) = navigations (snd (submitFormData net d p))"
    using c submitFormData_cases [of net p d] submitFormData_cases [of net q d] r
    by (elim disjE) simp_all
  show "fst (submitFormData net d q) = fst (submitFormData net d p)"
    using c submitFormData_cases [of net p d] submitFormData_cases [of net q d] r
    by (elim disjE) simp_all
qed

lemma submitForm_start_frame:
  assumes "submitBtn p = Some b"
  shows "fst (submitForm_start p) = Inr (b_innerHTML b)"
    and "same_net p (snd (submitForm_start p))"
    and "inputs (snd (submitForm_start p)) = inputs p"
    and "status_log (snd (submitForm_start p)) = status_log p @ [(''Sending your message...'', ''loading'')]"
    and "isSubmitting (snd (submitForm_start p))"
  using assms
  by (simp_all add: submitForm_start_def Let_def showFormStatus_def same_net_def split: option.splits)

lemma submitForm_finally_frame:
  "same_net p (submitForm_finally t p)"
  "status_log (submitForm_finally t p) = status_log p"
  "formStatus (submitForm_finally t p) = formStatus p"
  "\<not> isSubmitting (submitForm_finally t p)"
  by (simp_all add: submitForm_finally_def same_net_def)

lemma submitForm_try_result:
  "fetch_log (submitForm_try net t d p) = fetch_log (snd (submitFormData net d p))"
  "navigations (submitForm_try net t d p) = navigations (snd (submitFormData net d p))"
  "status_log (submitForm_try net t d p) = status_log p @ [(success_message, ''success'')]"
  "formStatus (submitForm_try net t d p)
     = map_option (\<lambda>st. st\<lparr>s_text := [], s_className := ''form-status''\<rparr>) (formStatus p)"
  "\<not> isSubmitting (submitForm_try net t d p)"
proof -
  obtain name where n: "fst (submitFormData net d p) = Inr (True, name)"
    using submitFormData_resolves by blast
  define p1 where "p1 = snd (submitFormData net d p)"
  have e: "submitFormData net d p = (Inr (True, name), p1)"
    using n by (simp add: p1_def prod_eq_iff)
  define p2 where "p2 = showFormStatus success_message ''success'' p1"
  have t: "submitForm_try net t d p = submitForm_finally t (handleReset (form_reset p2))"
    by (simp add: submitForm_try_def e Let_def p2_def)
  have n2: "same_net p1 (handleReset (form_reset p2))"
    using showFormStatus_frame(6) [of p1 success_message "''success''"]
      form_reset_frame(4) [of p2] handleReset_frame(4) [of "form_reset p2"]
    by (auto simp: p2_def intro: same_net_trans)
  have n3: "same_net p1 (submitForm_try net t d p)"
    unfolding t using n2 submitForm_finally_frame(1) by (rule same_net_trans)
  show "fetch_log (submitForm_try net t d p) = fetch_log (snd (submitFormData net d p))"
    "navigations (submitForm_try net t d p) = navigations (snd (submitFormData net d p))"
    using n3 by (simp_all add: same_net_def p1_def)
  show "status_log (submitForm_try net t d p) = status_log p @ [(success_message, ''success'')]"
    by (simp add: t submitForm_finally_frame handleReset_frame form_reset_frame p2_def
        showFormStatus_frame p1_def submitFormData_frame)
  show "formStatus (submitForm_try net t d p)
     = map_option (\<lambda>st. st\<lparr>s_text := [], s_className := ''form-status''\<rparr>) (formStatus p)"
    by (simp add: t submitForm_finally_frame handleReset_frame form_reset_frame p2_def
        showFormStatus_frame p1_def submitFormData_frame option.map_comp comp_def)
  show "\<not> isSubmitting (submitForm_try net t d p)"
    by (simp add: t submitForm_finally_frame)
qed

lemma handleSubmit_valid:
  assumes "\<not> isSubmitting p" "fst (validateForm p)" "submitBtn p = Some b"
  shows "handleSubmit net p
     = (SubmitFormCalled (Inr ()),
        submitForm_try net (b_innerHTML b) (formData p) (snd (submitForm_start (snd (validateForm p)))))"
proof -
  define p1 where "p1 = snd (validateForm p)"
  have v: "validateForm p = (True, p1)"
    using assms(2) by (simp add: p1_def prod_eq_iff)
  have b: "submitBtn p1 = Some b"
    using validateForm_frame(4) [of p] assms(3) by (simp add: p1_def)
  define p2 where "p2 = snd (submitForm_start p1)"
  have s: "submitForm_start p1 = (Inr (b_innerHTML b), p2)"
    using submitForm_start_frame(1) [OF b] by (simp add: p2_def prod_eq_iff)
  have "map field_static (inputs p2) = map field_static (inputs p)"
    using submitForm_start_frame(3) [OF b] validateForm_frame(1) [of p]
    by (simp add: p2_def p1_def same_form_def)
  then have d: "formData p2 = formData p" by (rule formData_static)
  show ?thesis
    using assms(1) by (simp add: handleSubmit_def v submitForm_def s d p1_def [symmetric] p2_def [symmetric])
qed

lemma handleSubmit_valid_net:
  assumes "\<not> isSubmitting p" "fst (validateForm p)" "submitBtn p = Some b"
  shows "fst (handleSubmit net p) = SubmitFormCalled (Inr ())"
    and "fetch_log (snd (handleSubmit net p)) = fetch_log (snd (submitFormData net (formData p) p))"
    and "navigations (snd (handleSubmit net p)) = navigations (snd (submitFormData net (formData p) p))"
    and "status_log (snd (handleSubmit net p))
           = status_log p @ [(''Sending your message...'', ''loading''), (success_message, ''success'')]"
    and "formStatus (snd (handleSubmit net p))
           = map_option (\<lambda>st. st\<lparr>s_text := [], s_className := ''form-status''\<rparr>) (formStatus p)"
proof -
  define p1 where "p1 = snd (validateForm p)"
  define p2 where "p2 = snd (submitForm_start p1)"
  have b: "submitBtn p1 = Some b"
    using validateForm_frame(4) [of p] assms(3) by (simp add: p1_def)
  have h: "handleSubmit net p = (SubmitFormCalled (Inr ()), submitForm_try net (b_innerHTML b) (formData p) p2)"
    using handleSubmit_valid [OF assms] by (simp add: p1_def p2_def)
  have n: "same_net p p2"
    using validateForm_frame(2) [of p] submitForm_start_frame(2) [OF b]
    by (auto simp: p1_def p2_def intro: same_net_trans)
  show "fst (handleSubmit net p) = SubmitFormCalled (Inr ())" by (simp add: h)
  show "fetch_log (snd (handleSubmit net p)) = fetch_log (snd (submitFormData net (formData p) p))"
    by (simp add: h submitForm_try_result submitFormData_same_net [OF n])
  show "navigations (snd (handleSubmit net p)) = navigations (snd (submitFormData net (formData p) p))"
    by (simp add: h submitForm_try_result submitFormData_same_net [OF n])
  show "status_log (snd (handleSubmit net p))
           = status_log p @ [(''Sending your message...'', ''loading''), (success_message, ''success'')]"
    using submitForm_start_frame(4) [OF b] validateForm_frame(6) [of p]
    by (simp add: h submitForm_try_result p2_def p1_def)
  have "formStatus p2 = map_option (\<lambda>st. st\<lparr>s_text := ''Sending your message...'',
            s_className := ''form-status show '' @ ''loading''\<rparr>) (formStatus p)"
    using b validateForm_frame(3) [of p]
    by (simp add: p2_def p1_def submitForm_start_def Let_def showFormStatus_frame)
  then show "formStatus (snd (handleSubmit net p))
           = map_option (\<lambda>st. st\<lparr>s_text := [], s_className := ''form-status''\<rparr>) (formStatus p)"
    by (simp add: h submitForm_try_result option.map_comp comp_def)
qed








































lemma filled_page_valid:
  "\<not> isSubmitting filled_page \<and> fst (validateForm filled_page) \<and> submitBtn filled_page \<noteq> None"
  by code_simp

lemma filled_page_facts:
  "fetch_log filled_page = []" "navigations filled_page = []"
  "loc_href filled_page = ''https://example.com/contact/''"
  "status_log filled_page = []"
  "formStatus filled_page = Some \<lparr>s_text = [], s_className = ''form-status'', s_aria_live = None\<rparr>"
  by (simp_all add: filled_page_def contact_page_def)







lemma encodeURIComponent_examples:
  "encodeURIComponent ''a b@c'' = ''a%20b%40c''"
  "encodeURIComponent [CHR 0xE9] = ''%C3%A9''"
  "encodeURIComponent [CHR 0x0A] = ''%0A''"
  by code_simp+











section \<open>The claims about the contact form\<close>







text \<open>
  Claim C10, evaluated where both endpoints fail on a well-formed submission.
  \<open>submitFormData\<close> resolves with the service \<open>mailto\<close> and \<open>submitForm\<close> takes the
  success branch: it calls \<open>showFormStatus\<close> with the success message and never with the
  failure message.  The form reset that follows in the same branch runs \<open>handleReset\<close>,
  which hides the status: when \<open>submitForm\<close> is done the status element is empty.
\<close>

theorem success_status_cleared_after_fallback:
  "fst (submitFormData net_down (formData filled_page) filled_page) = Inr (True, ''mailto'')
 \<and> fst (handleSubmit net_down filled_page) = SubmitFormCalled (Inr ())
 \<and> status_log (snd (handleSubmit net_down filled_page))
     = [(''Sending your message...'', ''loading''), (success_message, ''success'')]
 \<and> formStatus (snd (handleSubmit net_down filled_page))
     = Some \<lparr>s_text = [], s_className = ''form-status'', s_aria_live = None\<rparr>"
proof -
  obtain b where b: "submitBtn filled_page = Some b"
    using filled_page_valid by auto
  have v: "\<not> isSubmitting filled_page" "fst (validateForm filled_page)"
    using filled_page_valid by simp_all
  note h = handleSubmit_valid_net [OF v b, of net_down]
  have n: "net_down (first_request filled_page (formData filled_page)) \<noteq> Response True
    \<and> net_down (second_request filled_page (formData filled_page)) \<noteq> Response True"
    by (simp add: net_down_def)
  have m: "fst (submitFormData net_down (formData filled_page) filled_page) = Inr (True, ''mailto'')"
    using submitFormData_cases [of net_down filled_page "formData filled_page"] n by blast
  show ?thesis
    using m h(1,4,5) by (simp add: filled_page_facts)
qed

section \<open>Lemmas about the mobile navigation\<close>





section \<open>The claim about the mobile navigation\<close>




section \<open>Lemmas about the service worker\<close>

lemma fold_caches_delete:
  "fold caches_delete ns cs = filter (\<lambda>e. fst e \<notin> set ns) cs"
  by (induction ns arbitrary: cs) (auto simp: caches_delete_def intro: filter_cong)

lemma activate_filter: "activate cs = filter (\<lambda>e. fst e = CACHE_NAME) cs"
  by (auto simp: activate_def fold_caches_delete caches_keys_def intro: filter_cong)

lemma activate_only_current: "only_current (activate cs)"
  by (simp add: activate_filter only_current_def caches_keys_def)

lemma activate_distinct: "distinct (caches_keys cs) \<Longrightarrow> distinct (caches_keys (activate cs))"
  by (simp add: activate_filter caches_keys_def distinct_map_filter)

lemma map_of_filter_fst: "map_of (filter (\<lambda>e. fst e = k) xs) k = map_of xs k"
  by (induction xs) auto

lemma activate_lookup: "cache_lookup (activate cs) CACHE_NAME url = cache_lookup cs CACHE_NAME url"
  by (simp add: cache_lookup_def activate_filter map_of_filter_fst)

lemma caches_open_keys:
  "set (caches_keys (caches_open n cs)) = insert n (set (caches_keys cs))"
  "distinct (caches_keys cs) \<Longrightarrow> distinct (caches_keys (caches_open n cs))"
  by (auto simp: caches_open_def caches_keys_def)

lemma cache_put_in_keys: "caches_keys (cache_put_in n u r cs) = caches_keys cs"
  by (simp add: cache_put_in_def caches_keys_def comp_def cong: if_cong)

lemma onfetch_keys:
  "set (caches_keys (snd (onfetch origin rq nw cs))) \<subseteq> insert CACHE_NAME (set (caches_keys cs))"
  "distinct (caches_keys cs) \<Longrightarrow> distinct (caches_keys (snd (onfetch origin rq nw cs)))"
  by (auto simp: onfetch_def cache_put_in_keys caches_open_keys split: option.splits)

lemma onfetch_only_current: "only_current cs \<Longrightarrow> only_current (snd (onfetch origin rq nw cs))"
  using onfetch_keys(1) [of origin rq nw cs] by (auto simp: only_current_def)

lemma after_fetches_inv:
  "only_current cs \<Longrightarrow> distinct (caches_keys cs) \<Longrightarrow>
   only_current (after_fetches origin evs cs) \<and> distinct (caches_keys (after_fetches origin evs cs))"
  by (induction evs arbitrary: cs) (simp_all add: onfetch_only_current onfetch_keys)

text \<open>With at most one cache, of the current name, caches.match is the lookup in it.\<close>

lemma caches_match_only_current:
  assumes "only_current cs" "distinct (caches_keys cs)"
  shows "caches_match cs url = cache_lookup cs CACHE_NAME url"
proof (cases cs)
  case Nil
  then show ?thesis by (simp add: cache_lookup_def)
next
  case (Cons e cs')
  have e: "fst e = CACHE_NAME" using assms(1) Cons by (simp add: only_current_def caches_keys_def)
  have "cs' = []"
  proof (cases cs')
    case Nil then show ?thesis .
  next
    case (Cons e' cs'')
    then have "fst e' = CACHE_NAME" using assms(1) \<open>cs = e # cs'\<close>
      by (simp add: only_current_def caches_keys_def)
    then show ?thesis using assms(2) e Cons \<open>cs = e # cs'\<close> by (simp add: caches_keys_def)
  qed
  then show ?thesis using Cons e by (cases e) (simp add: cache_lookup_def split: option.splits)
qed

lemma map_of_append_new:
  "k \<notin> fst ` set xs \<Longrightarrow> map_of (xs @ [(k, v)]) = (map_of xs)(k \<mapsto> v)"
proof
  fix k'
  assume a: "k \<notin> fst ` set xs"
  then have n: "map_of xs k = None" by (simp add: map_of_eq_None_iff)
  show "map_of (xs @ [(k, v)]) k' = ((map_of xs)(k \<mapsto> v)) k'"
    using n by (cases "map_of xs k'") (auto simp: map_add_def)
qed

lemma map_of_cache_put: "map_of (cache_put url r c) = (map_of c)(url \<mapsto> r)"
proof (cases "url \<in> set (map fst c)")
  case False
  then show ?thesis
    using map_of_append_new [of url c r] by (simp add: cache_put_def)
next
  case True
  have "map_of (map (\<lambda>e. if fst e = url then (url, r) else e) c) k
      = (if k = url then (if url \<in> fst ` set c then Some r else None) else map_of c k)" for k
    by (induction c) (force simp: image_iff)+
  then show ?thesis using True by (auto simp: cache_put_def fun_eq_iff)
qed

lemma cache_lookup_put_in:
  "n \<in> set (caches_keys cs) \<Longrightarrow>
   cache_lookup (cache_put_in n u r cs) n u' = (if u' = u then Some r else cache_lookup cs n u')"
proof (induction cs)
  case Nil
  then show ?case by (simp add: caches_keys_def)
next
  case (Cons e cs)
  show ?case
  proof (cases "fst e = n")
    case True
    then show ?thesis
      by (cases e) (simp add: cache_lookup_def cache_put_in_def map_of_cache_put)
  next
    case False
    then have "n \<in> set (caches_keys cs)" using Cons.prems by (simp add: caches_keys_def)
    from Cons.IH [OF this] False show ?thesis
      by (cases e) (simp add: cache_lookup_def cache_put_in_def)
  qed
qed

lemma cache_lookup_put_in_other:
  "n' \<noteq> n \<Longrightarrow> cache_lookup (cache_put_in n u r cs) n' u' = cache_lookup cs n' u'"
  by (induction cs) (auto simp: cache_lookup_def cache_put_in_def)

lemma cache_lookup_open:
  "cache_lookup (caches_open n cs) n' u = cache_lookup cs n' u"
proof (cases "n \<in> set (map fst cs)")
  case True
  then show ?thesis by (simp add: caches_open_def)
next
  case False
  then have m: "map_of (cs @ [(n, [])]) = (map_of cs)(n \<mapsto> [])"
    using map_of_append_new [of n cs "[]"] by simp
  have "map_of cs n = None" using False by (simp add: map_of_eq_None_iff)
  then show ?thesis
    using False by (simp add: caches_open_def cache_lookup_def m del: map_of_append)
qed

lemma fetch_all_Some:
  "fetch_all net us = Some rs \<Longrightarrow>
   map fst rs = us \<and> (\<forall>e \<in> set rs. net (fst e) = Some (snd e) \<and> response_ok (snd e))"
proof (induction us arbitrary: rs)
  case Nil
  then show ?case by simp
next
  case (Cons u us)
  then show ?case
    by (auto split: option.splits if_splits)
qed

lemma fetch_all_ok:
  "(\<forall>u \<in> set us. \<exists>r. net u = Some r \<and> response_ok r) \<Longrightarrow> \<exists>rs. fetch_all net us = Some rs"
  by (induction us) auto

lemma fold_put_lookup:
  assumes "\<forall>e \<in> set rs. g (fst e) = Some (snd e)"
  shows "n \<in> set (caches_keys cs) \<Longrightarrow>
    cache_lookup (fold (\<lambda>e. cache_put_in n (fst e) (snd e)) rs cs) n u
      = (if u \<in> fst ` set rs then g u else cache_lookup cs n u)"
  using assms
proof (induction rs arbitrary: cs)
  case Nil
  then show ?case by simp
next
  case (Cons e rs)
  have k: "n \<in> set (caches_keys (cache_put_in n (fst e) (snd e) cs))"
    using Cons.prems(1) by (simp add: cache_put_in_keys)
  have a: "\<forall>e \<in> set rs. g (fst e) = Some (snd e)" and b: "g (fst e) = Some (snd e)"
    using Cons.prems(2) by simp_all
  show ?case
    using Cons.IH [OF k a] b Cons.prems(1)
    by (auto simp: cache_lookup_put_in)
qed

lemma install_caches:
  assumes "install origin net cs0 = Inr cs1" "u \<in> set STATIC_CACHE_URLS"
  shows "net (resolve origin u) \<noteq> None"
    and "cache_lookup cs1 CACHE_NAME (resolve origin u) = net (resolve origin u)"
proof -
  let ?us = "map (resolve origin) STATIC_CACHE_URLS"
  let ?cs = "caches_open CACHE_NAME cs0"
  obtain rs where rs: "fetch_all net ?us = Some rs"
    and c: "cs1 = fold (\<lambda>e. cache_put_in CACHE_NAME (fst e) (snd e)) rs ?cs"
    using assms(1) by (auto simp: install_def cache_addAll_def split: option.splits)
  note f = fetch_all_Some [OF rs]
  have g: "\<forall>e \<in> set rs. net (fst e) = Some (snd e)" using f by simp
  have k: "CACHE_NAME \<in> set (caches_keys ?cs)" by (simp add: caches_open_keys)
  have m: "resolve origin u \<in> fst ` set rs"
  proof -
    have "resolve origin u \<in> set ?us" using assms(2) by simp
    then have "resolve origin u \<in> set (map fst rs)" using f by simp
    then show ?thesis by simp
  qed
  then obtain e where e: "e \<in> set rs" "fst e = resolve origin u" by auto
  then show "net (resolve origin u) \<noteq> None" using g by auto
  show "cache_lookup cs1 CACHE_NAME (resolve origin u) = net (resolve origin u)"
    unfolding c using fold_put_lookup [OF g k, of "resolve origin u"] m by simp
qed

lemma install_succeeds:
  assumes "\<forall>u \<in> set STATIC_CACHE_URLS. \<exists>r. net (resolve origin u) = Some r \<and> response_ok r"
  shows "\<exists>cs1. install origin net cs0 = Inr cs1"
proof -
  have "\<forall>u \<in> set (map (resolve origin) STATIC_CACHE_URLS). \<exists>r. net u = Some r \<and> response_ok r"
    using assms by simp
  from fetch_all_ok [OF this] show ?thesis
    by (auto simp: install_def cache_addAll_def)
qed

lemma activate_keys: "caches_keys (activate cs) = filter (\<lambda>n. n = CACHE_NAME) (caches_keys cs)"
  by (simp add: activate_filter caches_keys_def filter_map comp_def)

lemma onfetch_cases:
  assumes "only_current cs" "distinct (caches_keys cs)"
    "fr_method rq = ''GET''" "take (length origin) (fr_url rq) = origin"
  shows "cache_lookup cs CACHE_NAME (fr_url rq) = Some r \<Longrightarrow>
           onfetch origin rq nw cs = (RespondWith (Some r), cs)"
    and "cache_lookup cs CACHE_NAME (fr_url rq) = None \<Longrightarrow> nw = Some resp \<Longrightarrow>
           rs_status resp = 200 \<and> rs_type resp = Basic \<Longrightarrow>
           fst (onfetch origin rq nw cs) = RespondWith (Some resp)
         \<and> cache_lookup (snd (onfetch origin rq nw cs)) CACHE_NAME (fr_url rq) = Some resp
         \<and> (\<forall>u. u \<noteq> fr_url rq \<longrightarrow>
               cache_lookup (snd (onfetch origin rq nw cs)) CACHE_NAME u = cache_lookup cs CACHE_NAME u)"
    and "cache_lookup cs CACHE_NAME (fr_url rq) = None \<Longrightarrow> nw = Some resp \<Longrightarrow>
           \<not> (rs_status resp = 200 \<and> rs_type resp = Basic) \<Longrightarrow>
           onfetch origin rq nw cs = (RespondWith (Some resp), cs)"
    and "cache_lookup cs CACHE_NAME (fr_url rq) = None \<Longrightarrow> nw = None \<Longrightarrow>
           onfetch origin rq nw cs
             = (RespondWith (if fr_mode rq = ''navigate''
                             then cache_lookup cs CACHE_NAME (resolve origin ''/offline.html'')
                             else None), cs)"
proof -
  note m = caches_match_only_current [OF assms(1,2)]
  show "cache_lookup cs CACHE_NAME (fr_url rq) = Some r \<Longrightarrow>
           onfetch origin rq nw cs = (RespondWith (Some r), cs)"
    using assms(3,4) by (simp add: onfetch_def m)
  show "cache_lookup cs CACHE_NAME (fr_url rq) = None \<Longrightarrow> nw = Some resp \<Longrightarrow>
           \<not> (rs_status resp = 200 \<and> rs_type resp = Basic) \<Longrightarrow>
           onfetch origin rq nw cs = (RespondWith (Some resp), cs)"
    using assms(3,4) by (auto simp: onfetch_def m)
  show "cache_lookup cs CACHE_NAME (fr_url rq) = None \<Longrightarrow> nw = None \<Longrightarrow>
           onfetch origin rq nw cs
             = (RespondWith (if fr_mode rq = ''navigate''
                             then cache_lookup cs CACHE_NAME (resolve origin ''/offline.html'')
                             else None), cs)"
    using assms(3,4) by (simp add: onfetch_def m)
  have k: "CACHE_NAME \<in> set (caches_keys (caches_open CACHE_NAME cs))"
    by (simp add: caches_open_keys)
  show "cache_lookup cs CACHE_NAME (fr_url rq) = None \<Longrightarrow> nw = Some resp \<Longrightarrow>
           rs_status resp = 200 \<and> rs_type resp = Basic \<Longrightarrow>
           fst (onfetch origin rq nw cs) = RespondWith (Some resp)
         \<and> cache_lookup (snd (onfetch origin rq nw cs)) CACHE_NAME (fr_url rq) = Some resp
         \<and> (\<forall>u. u \<noteq> fr_url rq \<longrightarrow>
               cache_lookup (snd (onfetch origin rq nw cs)) CACHE_NAME u = cache_lookup cs CACHE_NAME u)"
    using assms(3,4) by (simp add: onfetch_def m cache_lookup_put_in [OF k] cache_lookup_open)
qed

lemma ex_install: "install ex_origin ex_net ex_old = Inr ex_installed"
  by (simp add: install_def cache_addAll_def STATIC_CACHE_URLS_def resolve_def ex_origin_def
      ex_net_def response_ok_def ex_page_def caches_open_def ex_old_def CACHE_NAME_def
      cache_put_in_def cache_put_def ex_installed_def)

lemma ex_activate:
  "activate ex_installed = [(''csharp-portfolio-v1'',
         [(''https://example.com/'', ex_page ''https://example.com/''),
          (''https://example.com/css/main.css'', ex_page ''https://example.com/css/main.css''),
          (''https://example.com/js/bundle.js'', ex_page ''https://example.com/js/bundle.js''),
          (''https://example.com/offline.html'', ex_page ''https://example.com/offline.html'')])]"
  by (simp add: activate_def caches_keys_def ex_installed_def CACHE_NAME_def caches_delete_def)

section \<open>The claim about the service worker\<close>

text \<open>
  Claim C9.  The cache name is the fixed string \<open>csharp-portfolio-v1\<close>.  A successful
  \<open>install\<close> has stored, in the cache of that name, the network's response for every URL
  of the static list, and \<open>install\<close> succeeds when the network answers each with an ok
  response.  \<open>activate\<close> deletes every cache whose name differs and keeps that cache as
  it is.  In every state the worker handles fetch events in, that is after \<open>activate\<close> and
  any number of earlier fetch events, a same-origin GET request is answered with the response
  stored for it in that cache when there is one; otherwise the network is asked, and its
  response is stored (in that cache) only if it has status 200 and type basic.
\<close>

theorem service_worker_cache_first:
  "CACHE_NAME = ''csharp-portfolio-v1''
 \<and> (\<forall>cs1 u. install origin net cs0 = Inr cs1 \<and> u \<in> set STATIC_CACHE_URLS \<longrightarrow>
        net (resolve origin u) \<noteq> None
      \<and> cache_lookup cs1 CACHE_NAME (resolve origin u) = net (resolve origin u))
 \<and> ((\<forall>u \<in> set STATIC_CACHE_URLS. \<exists>r. net (resolve origin u) = Some r \<and> response_ok r) \<longrightarrow>
        (\<exists>cs1. install origin net cs0 = Inr cs1))
 \<and> caches_keys (activate cs0) = filter (\<lambda>n. n = CACHE_NAME) (caches_keys cs0)
 \<and> (\<forall>u. cache_lookup (activate cs0) CACHE_NAME u = cache_lookup cs0 CACHE_NAME u)
 \<and> (distinct (caches_keys cs0) \<and> fr_method rq = ''GET'' \<and> take (length origin) (fr_url rq) = origin \<longrightarrow>
      (let cs = after_fetches origin evs (activate cs0) in
         (\<forall>r. cache_lookup cs CACHE_NAME (fr_url rq) = Some r \<longrightarrow>
               onfetch origin rq nw cs = (RespondWith (Some r), cs))
       \<and> (cache_lookup cs CACHE_NAME (fr_url rq) = None \<longrightarrow>
            (\<forall>resp. nw = Some resp \<and> rs_status resp = 200 \<and> rs_type resp = Basic \<longrightarrow>
                fst (onfetch origin rq nw cs) = RespondWith (Some resp)
              \<and> cache_lookup (snd (onfetch origin rq nw cs)) CACHE_NAME (fr_url rq) = Some resp
              \<and> (\<forall>u. u \<noteq> fr_url rq \<longrightarrow>
                    cache_lookup (snd (onfetch origin rq nw cs)) CACHE_NAME u = cache_lookup cs CACHE_NAME u))
          \<and> (\<forall>resp. nw = Some resp \<and> \<not> (rs_status resp = 200 \<and> rs_type resp = Basic) \<longrightarrow>
                onfetch origin rq nw cs = (RespondWith (Some resp), cs))
          \<and> (nw = None \<longrightarrow>
                onfetch origin rq nw cs
                  = (RespondWith (if fr_mode rq = ''navigate''
                                  then cache_lookup cs CACHE_NAME (resolve origin ''/offline.html'')
                                  else None), cs)))))"
proof (intro conjI)
  show "CACHE_NAME = ''csharp-portfolio-v1''" by (simp add: CACHE_NAME_def)
  show "\<forall>cs1 u. install origin net cs0 = Inr cs1 \<and> u \<in> set STATIC_CACHE_URLS \<longrightarrow>
        net (resolve origin u) \<noteq> None
      \<and> cache_lookup cs1 CACHE_NAME (resolve origin u) = net (resolve origin u)"
    using install_caches [of origin net cs0] by blast
  show "(\<forall>u \<in> set STATIC_CACHE_URLS. \<exists>r. net (resolve origin u) = Some r \<and> response_ok r) \<longrightarrow>
        (\<exists>cs1. install origin net cs0 = Inr cs1)"
    using install_succeeds [of net origin cs0] by blast
  show "caches_keys (activate cs0) = filter (\<lambda>n. n = CACHE_NAME) (caches_keys cs0)"
    by (rule activate_keys)
  show "\<forall>u. cache_lookup (activate cs0) CACHE_NAME u = cache_lookup cs0 CACHE_NAME u"
    by (simp add: activate_lookup)
  show "distinct (caches_keys cs0) \<and> fr_method rq = ''GET'' \<and> take (length origin) (fr_url rq) = origin \<longrightarrow>
      (let cs = after_fetches origin evs (activate cs0) in
         (\<forall>r. cache_lookup cs CACHE_NAME (fr_url rq) = Some r \<longrightarrow>
               onfetch origin rq nw cs = (RespondWith (Some r), cs))
       \<and> (cache_lookup cs CACHE_NAME (fr_url rq) = None \<longrightarrow>
            (\<forall>resp. nw = Some resp \<and> rs_status resp = 200 \<and> rs_type resp = Basic \<longrightarrow>
                fst (onfetch origin rq nw cs) = RespondWith (Some resp)
              \<and> cache_lookup (snd (onfetch origin rq nw cs)) CACHE_NAME (fr_url rq) = Some resp
              \<and> (\<forall>u. u \<noteq> fr_url rq \<longrightarrow>
                    cache_lookup (snd (onfetch origin rq nw cs)) CACHE_NAME u = cache_lookup cs CACHE_NAME u))
          \<and> (\<forall>resp. nw = Some resp \<and> \<not> (rs_status resp = 200 \<and> rs_type resp = Basic) \<longrightarrow>
                onfetch origin rq nw cs = (RespondWith (Some resp), cs))
          \<and> (nw = None \<longrightarrow>
                onfetch origin rq nw cs
                  = (RespondWith (if fr_mode rq = ''navigate''
                                  then cache_lookup cs CACHE_NAME (resolve origin ''/offline.html'')
                                  else None), cs))))"
  proof (intro impI)
    assume a: "distinct (caches_keys cs0) \<and> fr_method rq = ''GET'' \<and> take (length origin) (fr_url rq) = origin"
    define cs where "cs = after_fetches origin evs (activate cs0)"
    have i: "only_current cs" "distinct (caches_keys cs)"
      using after_fetches_inv [OF activate_only_current activate_distinct, of cs0 origin evs] a
      by (simp_all add: cs_def)
    have g: "fr_method rq = ''GET''" "take (length origin) (fr_url rq) = origin" using a by simp_all
    note c = onfetch_cases [OF i g]
    have "(\<forall>r. cache_lookup cs CACHE_NAME (fr_url rq) = Some r \<longrightarrow>
               onfetch origin rq nw cs = (RespondWith (Some r), cs))
       \<and> (cache_lookup cs CACHE_NAME (fr_url rq) = None \<longrightarrow>
            (\<forall>resp. nw = Some resp \<and> rs_status resp = 200 \<and> rs_type resp = Basic \<longrightarrow>
                fst (onfetch origin rq nw cs) = RespondWith (Some resp)
              \<and> cache_lookup (snd (onfetch origin rq nw cs)) CACHE_NAME (fr_url rq) = Some resp
              \<and> (\<forall>u. u \<noteq> fr_url rq \<longrightarrow>
                    cache_lookup (snd (onfetch origin rq nw cs)) CACHE_NAME u = cache_lookup cs CACHE_NAME u))
          \<and> (\<forall>resp. nw = Some resp \<and> \<not> (rs_status resp = 200 \<and> rs_type resp = Basic) \<longrightarrow>
                onfetch origin rq nw cs = (RespondWith (Some resp), cs))
          \<and> (nw = None \<longrightarrow>
                onfetch origin rq nw cs
                  = (RespondWith (if fr_mode rq = ''navigate''
                                  then cache_lookup cs CACHE_NAME (resolve origin ''/offline.html'')
                                  else None), cs)))"
      using c(1) c(2) c(3) c(4) by (intro conjI allI impI) blast+
    then show "(let cs = after_fetches origin evs (activate cs0) in
         (\<forall>r. cache_lookup cs CACHE_NAME (fr_url rq) = Some r \<longrightarrow>
               onfetch origin rq nw cs = (RespondWith (Some r), cs))
       \<and> (cache_lookup cs CACHE_NAME (fr_url rq) = None \<longrightarrow>
            (\<forall>resp. nw = Some resp \<and> rs_status resp = 200 \<and> rs_type resp = Basic \<longrightarrow>
                fst (onfetch origin rq nw cs) = RespondWith (Some resp)
              \<and> cache_lookup (snd (onfetch origin rq nw cs)) CACHE_NAME (fr_url rq) = Some resp
              \<and> (\<forall>u. u \<noteq> fr_url rq \<longrightarrow>
                    cache_lookup (snd (onfetch origin rq nw cs)) CACHE_NAME u = cache_lookup cs CACHE_NAME u))
          \<and> (\<forall>resp. nw = Some resp \<and> \<not> (rs_status resp = 200 \<and> rs_type resp = Basic) \<longrightarrow>
                onfetch origin rq nw cs = (RespondWith (Some resp), cs))
          \<and> (nw = None \<longrightarrow>
                onfetch origin rq nw cs
                  = (RespondWith (if fr_mode rq = ''navigate''
                                  then cache_lookup cs CACHE_NAME (resolve origin ''/offline.html'')
                                  else None), cs))))"
      unfolding Let_def cs_def .
  qed
qed

theorem service_worker_cache_first_witness:
  "install ex_origin ex_net ex_old = Inr ex_installed
 \<and> cache_lookup ex_installed CACHE_NAME ''https://example.com/offline.html''
      = Some (ex_page ''https://example.com/offline.html'')
 \<and> caches_keys (activate ex_installed) = [''csharp-portfolio-v1'']
 \<and> onfetch ex_origin ex_home None (activate ex_installed)
      = (RespondWith (Some (ex_page ''https://example.com/'')), activate ex_installed)
 \<and> fst (onfetch ex_origin ex_about (ex_net ''https://example.com/about/'') (activate ex_installed))
      = RespondWith (Some (ex_page ''https://example.com/about/''))
 \<and> cache_lookup (snd (onfetch ex_origin ex_about (ex_net ''https://example.com/about/'')
        (activate ex_installed))) CACHE_NAME ''https://example.com/about/''
      = Some (ex_page ''https://example.com/about/'')"
proof -
  note T1 = service_worker_cache_first [of ex_origin ex_net ex_old ex_home "[]" None]
  note T2 = service_worker_cache_first [of ex_origin ex_net ex_installed ex_home "[]" None]
  note T3 = service_worker_cache_first [of ex_origin ex_net ex_installed ex_about "[]"
      "ex_net ''https://example.com/about/''"]
  have u: "''/offline.html'' \<in> set STATIC_CACHE_URLS" by (simp add: STATIC_CACHE_URLS_def)
  have a1: "cache_lookup ex_installed CACHE_NAME (resolve ex_origin ''/offline.html'')
      = ex_net (resolve ex_origin ''/offline.html'')"
    using T1 ex_install u by blast
  have a2: "caches_keys (activate ex_installed) = [''csharp-portfolio-v1'']"
    using T2 by (simp add: caches_keys_def ex_installed_def CACHE_NAME_def)
  have h: "distinct (caches_keys ex_installed)" "fr_method ex_home = ''GET''"
    "take (length ex_origin) (fr_url ex_home) = ex_origin"
    "fr_method ex_about = ''GET''" "take (length ex_origin) (fr_url ex_about) = ex_origin"
    by (simp_all add: caches_keys_def ex_installed_def ex_home_def ex_about_def ex_origin_def)
  have l1: "cache_lookup (activate ex_installed) CACHE_NAME (fr_url ex_home)
      = Some (ex_page ''https://example.com/'')"
    by (simp add: ex_activate cache_lookup_def CACHE_NAME_def ex_home_def)
  have l2: "cache_lookup (activate ex_installed) CACHE_NAME (fr_url ex_about) = None"
    by (simp add: ex_activate cache_lookup_def CACHE_NAME_def ex_about_def)
  have a3: "onfetch ex_origin ex_home None (activate ex_installed)
      = (RespondWith (Some (ex_page ''https://example.com/'')), activate ex_installed)"
    using T2 h(1,2,3) l1 by (simp add: Let_def)
  have n: "ex_net ''https://example.com/about/'' = Some (ex_page ''https://example.com/about/'')
      \<and> rs_status (ex_page ''https://example.com/about/'') = 200
      \<and> rs_type (ex_page ''https://example.com/about/'') = Basic"
    by (simp add: ex_net_def ex_page_def)
  have a4: "fst (onfetch ex_origin ex_about (ex_net ''https://example.com/about/'') (activate ex_installed))
      = RespondWith (Some (ex_page ''https://example.com/about/''))
    \<and> cache_lookup (snd (onfetch ex_origin ex_about (ex_net ''https://example.com/about/'')
        (activate ex_installed))) CACHE_NAME (fr_url ex_about)
      = Some (ex_page ''https://example.com/about/'')"
    using T3 h(1,4,5) l2 n by (simp add: Let_def)
  show ?thesis
    using ex_install a1 a2 a3 a4
    by (simp add: resolve_def ex_origin_def ex_net_def ex_about_def)
qed

end
